theory Spec2Isabelle
  imports Complex_Main "HOL-Library.Multiset"
begin

section \<open>Foodie: the two-tier recommendation resolver\<close>

text \<open>
  A shallow embedding of the resolver of \<^verbatim>\<open>foodie-app/check-supabase.js\<close>
  (\<^verbatim>\<open>getAiFilteredHotspots\<close>, \<^verbatim>\<open>getAiRankedRestaurants\<close>, the reconciliation in
  \<^verbatim>\<open>handleSearch\<close>), of the two ranking endpoints of \<^verbatim>\<open>foodie-backend/server.js\<close> and of
  \<^verbatim>\<open>apiRequest\<close> of \<^verbatim>\<open>foodie-app/src/services/api.js\<close>.

  Conventions of the model.
  \<^item> Strings are ASCII \<open>char list\<close>s; \<^verbatim>\<open>toLowerCase\<close> and the class \<^verbatim>\<open>\s\<close> are the ASCII ones.
  \<^item> JavaScript numbers that hold scores are modelled by \<open>real\<close>. Every score the code
    builds is a finite sum of 1, 1.5, 2, 3 and 4 (exact in binary floating point), or the
    single values 0.1 and \<^verbatim>\<open>Math.log(n)/10\<close>, which are only assigned, never added to.
  \<^item> \<^verbatim>\<open>Array.prototype.sort\<close> is stable (ECMAScript 2019); it is modelled by a stable
    insertion sort driven by the comparator.
  \<^item> The \<^verbatim>\<open>Map\<close> used as cache is a partial function; \<^verbatim>\<open>setTimeout\<close> registers a pending
    timer (due time, key) in the state and a clock advances explicitly.
  \<^item> A resolver suspends at \<^verbatim>\<open>await fetch(...)\<close>. The functions \<open>getAiFilteredHotspots\<close> and
    \<open>getAiRankedRestaurants\<close> give a call that nothing interrupts: the clock advances by
    the latency of its \<^verbatim>\<open>fetch\<close> and the call goes on. Histories in which calls overlap
    are built from the two halves of a call, \<open>beginCall\<close> and \<open>settleCall\<close>. Every
    \<^verbatim>\<open>fetch\<close> settles after a finite time.
\<close>

subsection \<open>Strings\<close>

definition lower_char :: "char \<Rightarrow> char" where
  "lower_char c =
     (case map_of (zip ''ABCDEFGHIJKLMNOPQRSTUVWXYZ'' ''abcdefghijklmnopqrstuvwxyz'') c of
        Some d \<Rightarrow> d
      | None \<Rightarrow> c)"

definition toLowerCase :: "string \<Rightarrow> string" where
  "toLowerCase s = map lower_char s"

text \<open>The ASCII members of the regular-expression class \<^verbatim>\<open>\s\<close>.\<close>

definition is_space :: "char \<Rightarrow> bool" where
  "is_space c = (c \<in> set [CHR '' '', CHR 0x09, CHR 0x0A, CHR 0x0B, CHR 0x0C, CHR 0x0D])"

text \<open>
  \<^verbatim>\<open>s.split(/\s+/)\<close>: the pieces between maximal runs of white space. A leading or a
  trailing run gives an empty first or last piece, and the empty string gives \<open>['''']\<close>.
  The flag says that the previous character was white space.
\<close>

fun split_aux :: "bool \<Rightarrow> string \<Rightarrow> string \<Rightarrow> string list" where
  "split_aux inws cur [] = [cur]"
| "split_aux inws cur (c # cs) =
     (if is_space c
      then (if inws then split_aux True cur cs else cur # split_aux True [] cs)
      else split_aux False (cur @ [c]) cs)"

definition split_ws :: "string \<Rightarrow> string list" where
  "split_ws s = split_aux False [] s"

definition trim :: "string \<Rightarrow> string" where
  "trim s = rev (dropWhile is_space (rev (dropWhile is_space s)))"

fun starts_with :: "string \<Rightarrow> string \<Rightarrow> bool" where
  "starts_with s [] = True"
| "starts_with [] (y # ys) = False"
| "starts_with (x # xs) (y # ys) = (x = y \<and> starts_with xs ys)"

text \<open>\<^verbatim>\<open>a.includes(b)\<close>: \<open>b\<close> occurs in \<open>a\<close> as a contiguous substring.\<close>

fun js_includes :: "string \<Rightarrow> string \<Rightarrow> bool" where
  "js_includes [] b = (b = [])"
| "js_includes (x # xs) b = (starts_with (x # xs) b \<or> js_includes xs b)"

fun join :: "string \<Rightarrow> string list \<Rightarrow> string" where
  "join sep [] = []"
| "join sep [x] = x"
| "join sep (x # y # ys) = x @ sep @ join sep (y # ys)"

text \<open>\<^verbatim>\<open>.split(/\s+/).filter(w => w.length > 2)\<close>\<close>

definition words_of :: "string \<Rightarrow> string list" where
  "words_of s = filter (\<lambda>w. length w > 2) (split_ws s)"

subsection \<open>Sorting with a comparator\<close>

text \<open>
  \<^verbatim>\<open>xs.sort(cmp)\<close>: \<open>x\<close> is placed before the first element \<open>y\<close> of the sorted rest with
  \<open>cmp x y \<le> 0\<close>, so that elements the comparator ties keep their input order.
\<close>

fun js_insert :: "('a \<Rightarrow> 'a \<Rightarrow> real) \<Rightarrow> 'a \<Rightarrow> 'a list \<Rightarrow> 'a list" where
  "js_insert cmp x [] = [x]"
| "js_insert cmp x (y # ys) =
     (if cmp x y \<le> 0 then x # y # ys else y # js_insert cmp x ys)"

definition js_sort :: "('a \<Rightarrow> 'a \<Rightarrow> real) \<Rightarrow> 'a list \<Rightarrow> 'a list" where
  "js_sort cmp xs = foldr (js_insert cmp) xs []"

subsection \<open>Candidates, suggestions, requests and responses\<close>

record hotspot =
  h_id :: nat
  h_name :: string
  h_address :: string
  review_count :: nat
  h_tags :: "string list option"

record restaurant =
  placeId :: string
  r_name :: string
  r_address :: string
  r_tags :: "string list option"
  cuisine :: string

record user_profile =
  p_name :: string
  p_age :: nat
  p_location :: string

text \<open>
  \<^verbatim>\<open>{ placeId, reasoning }\<close>, what the restaurant resolver returns. On the AI path the
  identifier is read from the entity the backend sent and is \<^verbatim>\<open>undefined\<close> (\<open>None\<close>) when
  that entity has none.
\<close>

record suggestion =
  sugg_placeId :: "string option"
  reasoning :: string

text \<open>\<^verbatim>\<open>{ placeId, reasoning, score, hasDirectMatch }\<close>, the scored candidate of the fallback.\<close>

record scored = suggestion +
  score :: real
  hasDirectMatch :: bool

text \<open>An entry of the backend's answer: \<^verbatim>\<open>{ ...restaurants[r.index], aiReasoning }\<close>.\<close>

record ranked_entry =
  entity :: "restaurant option"
  aiReasoning :: "string option"

text \<open>
  The list property of a parsed body (\<^verbatim>\<open>hotspots\<close> or \<^verbatim>\<open>restaurants\<close>): absent or falsy
  (\<open>Missing\<close>), a truthy value that is not an array (\<open>NotArray\<close>), or an array.
\<close>

datatype 'a items = Missing | NotArray | Array "'a list"

text \<open>
  The body of a response as \<^verbatim>\<open>response.json()\<close> delivers it: the call rejects
  (\<open>Unparseable\<close>); it yields \<^verbatim>\<open>null\<close>, of which no property can be read (\<open>JsonNull\<close>); or
  it yields a value of which the code reads the \<^verbatim>\<open>fallback\<close> flag and the list.
\<close>

datatype 'a body = Unparseable | JsonNull | Json (fallback: bool) (items: "'a items")

datatype 'a response = Response (status: nat) (body: "'a body")

text \<open>What \<^verbatim>\<open>await fetch(...)\<close> does: it rejects, or it resolves with a response.\<close>

datatype 'a fetch_result = Rejected | Settled "'a response"

record 'a fetch_outcome =
  latency :: nat
  result :: "'a fetch_result"

datatype request =
  FilterHotspots string string "user_profile option" "hotspot list"
| RankRestaurants string string "user_profile option" "restaurant list"

datatype ranking_error =
  FetchRejected | BackendFallback | BackendFailed nat | JsonError | TypeError

text \<open>
  What the cache holds and the resolvers return. \<open>NotAList\<close> is a value that is not an
  array, which the hotspot resolver passes on as it finds it.
\<close>

datatype cached = Hotspots "hotspot list" | Suggestions "suggestion list" | NotAList

record state =
  now :: nat
  cache :: "string \<rightharpoonup> cached"
  timers :: "(nat \<times> string) list"
  requests :: "request list"

definition init :: state where
  "init = \<lparr>now = 0, cache = Map.empty, timers = [], requests = []\<rparr>"

subsection \<open>The cache and its timers\<close>

text \<open>
  The clock advances by \<open>d\<close> milliseconds; every pending \<^verbatim>\<open>setTimeout(() => cache.delete(key), ...)\<close>
  that is due by then runs.
\<close>

definition elapse :: "nat \<Rightarrow> state \<Rightarrow> state" where
  "elapse d s =
     (let t = now s + d in
      s\<lparr>now := t,
        cache := foldl (\<lambda>m e. m(snd e := None)) (cache s) (filter (\<lambda>e. fst e \<le> t) (timers s)),
        timers := filter (\<lambda>e. \<not> fst e \<le> t) (timers s)\<rparr>)"

text \<open>\<^verbatim>\<open>cache.set(key, v)\<close> and \<^verbatim>\<open>setTimeout(() => cache.delete(key), ms)\<close>\<close>

definition cache_set :: "string \<Rightarrow> cached \<Rightarrow> state \<Rightarrow> state" where
  "cache_set k v s = s\<lparr>cache := (cache s)(k \<mapsto> v)\<rparr>"

definition setTimeout_delete :: "string \<Rightarrow> nat \<Rightarrow> state \<Rightarrow> state" where
  "setTimeout_delete k ms s = s\<lparr>timers := timers s @ [(now s + ms, k)]\<rparr>"

subsection \<open>The remote call of the resolvers\<close>

definition ok :: "nat \<Rightarrow> bool" where
  "ok st = (200 \<le> st \<and> st \<le> 299)"

text \<open>
  The \<^verbatim>\<open>try\<close> block of both resolvers up to the property it reads: \<open>Inl\<close> is a \<^verbatim>\<open>throw\<close>
  (a rejected \<^verbatim>\<open>fetch\<close>; in the \<^verbatim>\<open>!response.ok\<close> branch either error, or the
  \<^verbatim>\<open>TypeError\<close> of reading \<^verbatim>\<open>errorData.fallback\<close> of \<^verbatim>\<open>null\<close>; a rejected
  \<^verbatim>\<open>response.json()\<close>; the \<^verbatim>\<open>TypeError\<close> of reading the list of \<^verbatim>\<open>null\<close>); \<open>Inr\<close> is the
  value of \<^verbatim>\<open>result.hotspots\<close> (\<^verbatim>\<open>result.restaurants\<close>).
\<close>

definition try_fetch :: "'a fetch_result \<Rightarrow> ranking_error + 'a items" where
  "try_fetch fr =
     (case fr of
        Rejected \<Rightarrow> Inl FetchRejected
      | Settled rsp \<Rightarrow>
          if \<not> ok (status rsp) then
            (case body rsp of
               Unparseable \<Rightarrow> Inl (BackendFailed (status rsp))
             | JsonNull \<Rightarrow> Inl TypeError
             | Json fb its \<Rightarrow> if fb then Inl BackendFallback else Inl (BackendFailed (status rsp)))
          else
            (case body rsp of
               Unparseable \<Rightarrow> Inl JsonError
             | JsonNull \<Rightarrow> Inl TypeError
             | Json fb its \<Rightarrow> Inr its))"

subsection \<open>The hotspot resolver\<close>

definition tagScoreH :: "string list \<Rightarrow> string list \<Rightarrow> real \<Rightarrow> string \<Rightarrow> real" where
  "tagScoreH cravingsWords moodWords sc tag =
     (let tagLower = toLowerCase tag;
          s1 = foldl (\<lambda>s word. if js_includes tagLower word \<or> js_includes word tagLower
                                 then s + 2 else s) sc cravingsWords
      in foldl (\<lambda>s word. if js_includes tagLower word \<or> js_includes word tagLower
                          then s + 1.5 else s) s1 moodWords)"

definition first_piece :: "string \<Rightarrow> string" where
  "first_piece s = (case split_ws s of [] \<Rightarrow> ''undefined'' | p # ps \<Rightarrow> p)"

definition scoreHotspot :: "string list \<Rightarrow> string list \<Rightarrow> hotspot \<Rightarrow> real" where
  "scoreHotspot moodWords cravingsWords h =
     (let s1 = (case h_tags h of
                  None \<Rightarrow> 0
                | Some ts \<Rightarrow> foldl (tagScoreH cravingsWords moodWords) 0 ts);
          nameLower = toLowerCase (h_name h);
          s2 = foldl (\<lambda>s word. if js_includes nameLower word
                                    \<or> js_includes word (first_piece nameLower)
                                 then s + 3 else s) s1 cravingsWords;
          s3 = foldl (\<lambda>s word. if js_includes nameLower word then s + 2 else s) s2 moodWords;
          s4 = (if review_count h > 8000 then s3 + 2
                else if review_count h > 6000 then s3 + 1 else s3)
      in if s4 = 0
         then ln (real (if review_count h = 0 then 1 else review_count h)) / 10
         else s4)"

text \<open>The \<^verbatim>\<open>catch\<close> block of \<^verbatim>\<open>getAiFilteredHotspots\<close>, up to the list it stores and returns.\<close>

definition hotspotFallback :: "string \<Rightarrow> string \<Rightarrow> hotspot list \<Rightarrow> hotspot list" where
  "hotspotFallback mood cravings allHotspots =
     (let moodLower = toLowerCase mood;
          cravingsLower = toLowerCase cravings;
          moodWords = words_of moodLower;
          cravingsWords = words_of cravingsLower;
          scored = js_sort (\<lambda>a b. snd b - snd a)
                     (map (\<lambda>h. (h, scoreHotspot moodWords cravingsWords h)) allHotspots)
      in map fst scored)"

text \<open>\<^verbatim>\<open>result.hotspots || []\<close>\<close>

definition hotspots_or_empty :: "hotspot items \<Rightarrow> cached" where
  "hotspots_or_empty its =
     (case its of Missing \<Rightarrow> Hotspots [] | NotArray \<Rightarrow> NotAList | Array xs \<Rightarrow> Hotspots xs)"

text \<open>
  What \<^verbatim>\<open>getAiFilteredHotspots\<close> does once its \<^verbatim>\<open>fetch\<close> has settled, in the state of
  that moment: the rest of the \<^verbatim>\<open>try\<close> block, or the \<^verbatim>\<open>catch\<close> block.
\<close>

definition hotspotsSettled ::
  "hotspot fetch_result \<Rightarrow> string \<Rightarrow> string \<Rightarrow> hotspot list \<Rightarrow> state \<Rightarrow> cached \<times> state" where
  "hotspotsSettled fr mood cravings allHotspots s1 =
     (let cacheKey = ''hotspots-'' @ mood @ ''-'' @ cravings in
      case try_fetch fr of
        Inr its \<Rightarrow>
          (let filteredHotspots = hotspots_or_empty its
           in (filteredHotspots,
               setTimeout_delete cacheKey 300000 (cache_set cacheKey filteredHotspots s1)))
      | Inl error \<Rightarrow>
          (let filtered = hotspotFallback mood cravings allHotspots
           in (Hotspots filtered, cache_set cacheKey (Hotspots filtered) s1)))"

definition getAiFilteredHotspots ::
  "hotspot fetch_outcome \<Rightarrow> string \<Rightarrow> string \<Rightarrow> user_profile option \<Rightarrow> hotspot list
     \<Rightarrow> state \<Rightarrow> cached \<times> state" where
  "getAiFilteredHotspots remote mood cravings userProfile allHotspots s =
     (let cacheKey = ''hotspots-'' @ mood @ ''-'' @ cravings in
      case cache s cacheKey of
        Some v \<Rightarrow> (v, s)
      | None \<Rightarrow>
          (let s1 = elapse (latency remote)
                      (s\<lparr>requests := requests s
                            @ [FilterHotspots mood cravings userProfile allHotspots]\<rparr>)
           in hotspotsSettled (result remote) mood cravings allHotspots s1))"

subsection \<open>The restaurant resolver\<close>

text \<open>The local variables of the scoring callback of \<^verbatim>\<open>getAiRankedRestaurants\<close>.\<close>

record acc =
  acc_score :: real
  acc_direct :: bool
  acc_matched :: "string list"
  acc_parts :: "string list"

text \<open>\<^verbatim>\<open>if (!matchedTags.includes(tag)) matchedTags.push(tag)\<close>\<close>

definition pushTag :: "string \<Rightarrow> acc \<Rightarrow> acc" where
  "pushTag tag a =
     (if tag \<in> set (acc_matched a) then a else a\<lparr>acc_matched := acc_matched a @ [tag]\<rparr>)"

definition cravingTagStep :: "string \<Rightarrow> string \<Rightarrow> acc \<Rightarrow> string \<Rightarrow> acc" where
  "cravingTagStep tag tagLower a word =
     (if js_includes tagLower word \<or> js_includes word tagLower
      then pushTag tag (a\<lparr>acc_score := acc_score a + 3, acc_direct := True\<rparr>)
      else a)"

definition phraseTagStep :: "string \<Rightarrow> string \<Rightarrow> string \<Rightarrow> acc \<Rightarrow> acc" where
  "phraseTagStep tag tagLower cravingsLower a =
     (if js_includes tagLower cravingsLower \<or> js_includes cravingsLower tagLower
      then pushTag tag (a\<lparr>acc_score := acc_score a + 4, acc_direct := True\<rparr>)
      else a)"

definition moodTagStep :: "string \<Rightarrow> string \<Rightarrow> acc \<Rightarrow> string \<Rightarrow> acc" where
  "moodTagStep tag tagLower a word =
     (if js_includes tagLower word \<or> js_includes word tagLower
      then pushTag tag (a\<lparr>acc_score := acc_score a + 1.5\<rparr>)
      else a)"

definition tagStep :: "string \<Rightarrow> string list \<Rightarrow> string list \<Rightarrow> acc \<Rightarrow> string \<Rightarrow> acc" where
  "tagStep cravingsLower cravingsWords moodWords a tag =
     (let tagLower = toLowerCase tag;
          a1 = foldl (cravingTagStep tag tagLower) a cravingsWords;
          a2 = phraseTagStep tag tagLower cravingsLower a1
      in foldl (moodTagStep tag tagLower) a2 moodWords)"

text \<open>\<^verbatim>\<open>if (r.tags && r.tags.length > 0) { ... }\<close>\<close>

definition checkTags :: "string \<Rightarrow> string list \<Rightarrow> string list \<Rightarrow> restaurant \<Rightarrow> acc \<Rightarrow> acc" where
  "checkTags cravingsLower cravingsWords moodWords r a =
     (case r_tags r of
        None \<Rightarrow> a
      | Some ts \<Rightarrow>
          if length ts > 0 then
            (let a1 = foldl (tagStep cravingsLower cravingsWords moodWords)
                        (a\<lparr>acc_matched := []\<rparr>) ts
             in if length (acc_matched a1) > 0
                then a1\<lparr>acc_parts := acc_parts a1 @ [''serves '' @ join '', '' (acc_matched a1)]\<rparr>
                else a1)
          else a)"

definition nameStep :: "string \<Rightarrow> acc \<Rightarrow> string \<Rightarrow> acc" where
  "nameStep nameLower a word =
     (if js_includes nameLower word then
        (let a1 = a\<lparr>acc_score := acc_score a + 2, acc_direct := True\<rparr>
         in if \<not> list_ex (\<lambda>p. js_includes p ''serves'') (acc_parts a1)
            then a1\<lparr>acc_parts := acc_parts a1 @ [''specializes in '' @ word]\<rparr>
            else a1)
      else a)"

definition namePhraseStep :: "string \<Rightarrow> string \<Rightarrow> acc \<Rightarrow> acc" where
  "namePhraseStep nameLower cravingsLower a =
     (if js_includes nameLower cravingsLower
      then a\<lparr>acc_score := acc_score a + 3, acc_direct := True\<rparr>
      else a)"

definition foodWords :: "string list" where
  "foodWords = [''pizza'', ''chinese'', ''mexican'', ''bbq'', ''vegan'', ''sushi'', ''burger'',
                ''thai'', ''italian'', ''spicy'']"

definition foodTags :: "string list \<Rightarrow> string list" where
  "foodTags ts = filter (\<lambda>t. list_ex (\<lambda>ft. js_includes (toLowerCase t) ft) foodWords) ts"

text \<open>\<^verbatim>\<open>if (score === 0 && r.tags) { ... }\<close>\<close>

definition cuisineStep :: "restaurant \<Rightarrow> acc \<Rightarrow> acc" where
  "cuisineStep r a =
     (case r_tags r of
        None \<Rightarrow> a
      | Some ts \<Rightarrow>
          if acc_score a = 0 then
            (case foodTags ts of
               [] \<Rightarrow> a
             | ft # fts \<Rightarrow> a\<lparr>acc_score := 0.1, acc_parts := acc_parts a @ [''serves '' @ ft]\<rparr>)
          else a)"

definition scoreAcc :: "string \<Rightarrow> string list \<Rightarrow> string list \<Rightarrow> restaurant \<Rightarrow> acc" where
  "scoreAcc cravingsLower cravingsWords moodWords r =
     (let a0 = \<lparr>acc_score = 0, acc_direct = False, acc_matched = [], acc_parts = []\<rparr>;
          a1 = checkTags cravingsLower cravingsWords moodWords r a0;
          nameLower = toLowerCase (r_name r);
          a2 = foldl (nameStep nameLower) a1 cravingsWords;
          a3 = namePhraseStep nameLower cravingsLower a2
      in cuisineStep r a3)"

definition makeReasoning :: "restaurant \<Rightarrow> acc \<Rightarrow> string" where
  "makeReasoning r a =
     (if length (acc_parts a) > 0
      then r_name r @ '' - '' @ join '' & '' (take 2 (acc_parts a))
      else r_name r @ '' - '' @
           (case r_tags r of
              None \<Rightarrow> []
            | Some ts \<Rightarrow> if length ts > 0 then join '', '' (take 2 ts) else []))"

definition scoreRestaurant :: "string \<Rightarrow> string list \<Rightarrow> string list \<Rightarrow> restaurant \<Rightarrow> scored" where
  "scoreRestaurant cravingsLower cravingsWords moodWords r =
     (let a = scoreAcc cravingsLower cravingsWords moodWords r
      in \<lparr>sugg_placeId = Some (placeId r), reasoning = makeReasoning r a,
          score = acc_score a, hasDirectMatch = acc_direct a\<rparr>)"

text \<open>The comparator of the \<^verbatim>\<open>.sort(...)\<close> of the restaurant fallback.\<close>

definition directFirst :: "scored \<Rightarrow> scored \<Rightarrow> real" where
  "directFirst a b =
     (if hasDirectMatch a \<and> \<not> hasDirectMatch b then - 1
      else if \<not> hasDirectMatch a \<and> hasDirectMatch b then 1
      else score b - score a)"

text \<open>The scored candidates of a fallback run, in input order.\<close>

definition scoredRestaurants :: "string \<Rightarrow> string \<Rightarrow> restaurant list \<Rightarrow> scored list" where
  "scoredRestaurants mood cravings allRestaurants =
     (let moodLower = trim (toLowerCase mood);
          cravingsLower = trim (toLowerCase cravings);
          moodWords = words_of moodLower;
          cravingsWords = words_of cravingsLower
      in map (scoreRestaurant cravingsLower cravingsWords moodWords) allRestaurants)"

definition toSuggestion :: "scored \<Rightarrow> suggestion" where
  "toSuggestion x = \<lparr>sugg_placeId = sugg_placeId x, reasoning = take 120 (reasoning x)\<rparr>"

text \<open>The \<^verbatim>\<open>catch\<close> block of \<^verbatim>\<open>getAiRankedRestaurants\<close>, up to the list it stores and returns.\<close>

definition restaurantFallback :: "string \<Rightarrow> string \<Rightarrow> restaurant list \<Rightarrow> suggestion list" where
  "restaurantFallback mood cravings allRestaurants =
     map toSuggestion
       (filter (\<lambda>r. score r > 0)
          (js_sort directFirst (scoredRestaurants mood cravings allRestaurants)))"

text \<open>
  \<^verbatim>\<open>{ placeId: r.placeId, reasoning: r.aiReasoning || `${r.name} - ${r.cuisine}` }\<close>; an
  empty reasoning is falsy, and a missing property prints as \<^verbatim>\<open>undefined\<close>.
\<close>

definition toAiSuggestion :: "ranked_entry \<Rightarrow> suggestion" where
  "toAiSuggestion r =
     \<lparr>sugg_placeId = map_option placeId (entity r),
      reasoning =
        (case aiReasoning r of
           Some t \<Rightarrow> if t \<noteq> [] then t else
             (case entity r of
                None \<Rightarrow> ''undefined - undefined''
              | Some e \<Rightarrow> r_name e @ '' - '' @ cuisine e)
         | None \<Rightarrow>
             (case entity r of
                None \<Rightarrow> ''undefined - undefined''
              | Some e \<Rightarrow> r_name e @ '' - '' @ cuisine e))\<rparr>"

text \<open>
  The \<^verbatim>\<open>try\<close> block of \<^verbatim>\<open>getAiRankedRestaurants\<close> up to its suggestions. An entry of
  the array is \<^verbatim>\<open>null\<close> (\<open>None\<close>) or a value whose properties can be read.
  \<^verbatim>\<open>(result.restaurants || []).map(...)\<close> throws a \<^verbatim>\<open>TypeError\<close> when the list is not an
  array and when the callback reads \<^verbatim>\<open>r.placeId\<close> of a \<^verbatim>\<open>null\<close> entry.
\<close>

definition try_restaurants ::
  "ranked_entry option fetch_result \<Rightarrow> ranking_error + suggestion list" where
  "try_restaurants fr =
     (case try_fetch fr of
        Inl error \<Rightarrow> Inl error
      | Inr its \<Rightarrow>
          (case its of
             Missing \<Rightarrow> Inr []
           | NotArray \<Rightarrow> Inl TypeError
           | Array rankedRestaurants \<Rightarrow>
               (case those rankedRestaurants of
                  None \<Rightarrow> Inl TypeError
                | Some rs \<Rightarrow> Inr (map toAiSuggestion rs))))"

text \<open>
  What \<^verbatim>\<open>getAiRankedRestaurants\<close> does once its \<^verbatim>\<open>fetch\<close> has settled, in the state of
  that moment.
\<close>

definition restaurantsSettled ::
  "ranked_entry option fetch_result \<Rightarrow> string \<Rightarrow> string \<Rightarrow> restaurant list \<Rightarrow> state
     \<Rightarrow> cached \<times> state" where
  "restaurantsSettled fr mood cravings allRestaurants s1 =
     (let cacheKey = ''restaurants-'' @ mood @ ''-'' @ cravings in
      case try_restaurants fr of
        Inr suggestions \<Rightarrow>
          (Suggestions suggestions,
           setTimeout_delete cacheKey 300000 (cache_set cacheKey (Suggestions suggestions) s1))
      | Inl error \<Rightarrow>
          (let suggestions = restaurantFallback mood cravings allRestaurants
           in (Suggestions suggestions, cache_set cacheKey (Suggestions suggestions) s1)))"

definition getAiRankedRestaurants ::
  "ranked_entry option fetch_outcome \<Rightarrow> string \<Rightarrow> string \<Rightarrow> user_profile option
     \<Rightarrow> restaurant list \<Rightarrow> state \<Rightarrow> cached \<times> state" where
  "getAiRankedRestaurants remote mood cravings userProfile allRestaurants s =
     (let cacheKey = ''restaurants-'' @ mood @ ''-'' @ cravings in
      case cache s cacheKey of
        Some v \<Rightarrow> (v, s)
      | None \<Rightarrow>
          (let s1 = elapse (latency remote)
                      (s\<lparr>requests := requests s
                            @ [RankRestaurants mood cravings userProfile allRestaurants]\<rparr>)
           in restaurantsSettled (result remote) mood cravings allRestaurants s1))"

subsection \<open>Reconciliation in \<^verbatim>\<open>handleSearch\<close>\<close>

text \<open>\<^verbatim>\<open>new Map(allRestaurants.map(r => [r.placeId, r]))\<close>: a later entry replaces an earlier one.\<close>

definition restaurantMap :: "restaurant list \<Rightarrow> (string \<rightharpoonup> restaurant)" where
  "restaurantMap allRestaurants = foldl (\<lambda>m r. m(placeId r \<mapsto> r)) Map.empty allRestaurants"

text \<open>\<^verbatim>\<open>suggestions.map(r => restaurantMap.get(r.placeId)).filter(Boolean)\<close>\<close>

definition filteredRestaurants :: "suggestion list \<Rightarrow> restaurant list \<Rightarrow> restaurant list" where
  "filteredRestaurants suggestions allRestaurants =
     List.map_filter
       (\<lambda>r. case sugg_placeId r of None \<Rightarrow> None | Some p \<Rightarrow> restaurantMap allRestaurants p)
       suggestions"

text \<open>
  \<^verbatim>\<open>Object.fromEntries(suggestions.map(r => [r.placeId, r.reasoning]))\<close>: property keys are
  strings, and a later entry replaces an earlier one.
\<close>

definition aiReasoningMap :: "suggestion list \<Rightarrow> (string \<rightharpoonup> string)" where
  "aiReasoningMap suggestions =
     foldl (\<lambda>m r. m((case sugg_placeId r of None \<Rightarrow> ''undefined'' | Some p \<Rightarrow> p) \<mapsto> reasoning r))
       Map.empty suggestions"

subsection \<open>The backend endpoints\<close>

text \<open>
  What the backend gets out of the generative model, after
  \<^verbatim>\<open>text.match(...)\<close> and \<^verbatim>\<open>JSON.parse\<close>: the call or the parse throws, no array is found in
  the text, or an array is read. The hotspot pattern \<^verbatim>\<open>/\[[\d,\s]+\]/\<close> admits digits,
  commas and white space only, so its array holds natural numbers. An entry of the
  restaurant array has an \<^verbatim>\<open>index\<close> that is a number, or none (the property is absent or
  not a number, and both comparisons of the filter are false).
\<close>

datatype 'a ai_answer = AiThrows | NoArray | ParseThrows | Parsed "'a list"

record ranking =
  index :: "rat option"
  rk_reasoning :: "string option"

definition fallback_500 :: "'a response" where
  "fallback_500 = Response 500 (Json True Missing)"

definition filterHotspotsEndpoint ::
  "nat ai_answer \<Rightarrow> string \<Rightarrow> string \<Rightarrow> user_profile option \<Rightarrow> hotspot list \<Rightarrow> hotspot response" where
  "filterHotspotsEndpoint ai mood cravings profile hotspots =
     (if mood = [] \<or> cravings = [] \<or> profile = None then Response 400 (Json False Missing)
      else if hotspots = [] then Response 400 (Json False Missing)
      else if list_ex (\<lambda>h. h_tags h = None) hotspots then fallback_500
      else (case ai of
              Parsed indices \<Rightarrow>
                Response 200
                  (Json False
                     (Array (map (\<lambda>i. hotspots ! i) (filter (\<lambda>i. i < length hotspots) indices))))
            | _ \<Rightarrow> fallback_500))"

text \<open>
  \<^verbatim>\<open>restaurants[r.index]\<close> is \<^verbatim>\<open>undefined\<close> unless the index is an integer in range; the
  spread of \<^verbatim>\<open>undefined\<close> adds no property.
\<close>

definition at_index :: "'a list \<Rightarrow> rat option \<Rightarrow> 'a option" where
  "at_index xs idx =
     (case idx of
        None \<Rightarrow> None
      | Some i \<Rightarrow>
          if of_int \<lfloor>i\<rfloor> = i \<and> 0 \<le> i \<and> i < of_nat (length xs)
          then Some (xs ! nat \<lfloor>i\<rfloor>) else None)"

definition in_range :: "'a list \<Rightarrow> ranking \<Rightarrow> bool" where
  "in_range xs r =
     (case index r of None \<Rightarrow> False | Some i \<Rightarrow> 0 \<le> i \<and> i < of_nat (length xs))"

definition rankRestaurantsEndpoint ::
  "ranking ai_answer \<Rightarrow> string \<Rightarrow> string \<Rightarrow> user_profile option \<Rightarrow> restaurant list
     \<Rightarrow> ranked_entry option response" where
  "rankRestaurantsEndpoint ai mood cravings profile restaurants =
     (if mood = [] \<or> cravings = [] \<or> profile = None then Response 400 (Json False Missing)
      else if restaurants = [] then Response 400 (Json False Missing)
      else if list_ex (\<lambda>r. r_tags r = None) restaurants then fallback_500
      else (case ai of
              Parsed rankings \<Rightarrow>
                Response 200
                  (Json False
                     (Array (map (\<lambda>r. Some \<lparr>entity = at_index restaurants (index r),
                                             aiReasoning = rk_reasoning r\<rparr>)
                               (filter (in_range restaurants) rankings))))
            | _ \<Rightarrow> fallback_500))"

subsection \<open>\<^verbatim>\<open>apiRequest\<close> of the service layer\<close>

datatype api_error = APIError string nat

definition handleResponse :: "'a response \<Rightarrow> api_error + 'a body" where
  "handleResponse rsp =
     (if \<not> ok (status rsp)
      then Inl (APIError ''Something went wrong. Please try again later.'' (status rsp))
      else (case body rsp of
              Unparseable \<Rightarrow> Inl (APIError ''Network error. Please check your connection.'' 0)
            | b \<Rightarrow> Inr b))"

text \<open>
  \<^verbatim>\<open>setTimeout(() => controller.abort(), 10000)\<close>: a \<^verbatim>\<open>fetch\<close> that has not settled when the
  timer runs is aborted and the request fails with status 408.
\<close>

definition apiRequest :: "'a fetch_outcome \<Rightarrow> api_error + 'a body" where
  "apiRequest remote =
     (if latency remote \<ge> 10000 then Inl (APIError ''Request timed out. Please try again.'' 408)
      else (case result remote of
              Rejected \<Rightarrow> Inl (APIError ''Network error. Please check your connection.'' 0)
            | Settled rsp \<Rightarrow> handleResponse rsp))"

subsection \<open>Notions used to state the properties\<close>

text \<open>The score the hotspot fallback gives a candidate for a query.\<close>

definition hotspotScore :: "string \<Rightarrow> string \<Rightarrow> hotspot \<Rightarrow> real" where
  "hotspotScore mood cravings h =
     scoreHotspot (words_of (toLowerCase mood)) (words_of (toLowerCase cravings)) h"

text \<open>\<open>a\<close> contains \<open>b\<close> or \<open>b\<close> contains \<open>a\<close>: the substring test in either direction.\<close>

definition matches :: "string \<Rightarrow> string \<Rightarrow> bool" where
  "matches a b = (js_includes a b \<or> js_includes b a)"

text \<open>The number of (tag, word) pairs whose lower-cased tag and word match.\<close>

definition pairCount :: "string list \<Rightarrow> string list \<Rightarrow> nat" where
  "pairCount tags ws =
     length (filter (\<lambda>tw. matches (toLowerCase (fst tw)) (snd tw)) (List.product tags ws))"

text \<open>The number of tags whose lower-cased form matches the whole phrase.\<close>

definition phraseCount :: "string list \<Rightarrow> string \<Rightarrow> nat" where
  "phraseCount tags phrase = length (filter (\<lambda>t. matches (toLowerCase t) phrase) tags)"

text \<open>The number of words present in the lower-cased name.\<close>

definition nameCount :: "string \<Rightarrow> string list \<Rightarrow> nat" where
  "nameCount name ws = length (filter (\<lambda>w. js_includes (toLowerCase name) w) ws)"

definition tags_of :: "restaurant \<Rightarrow> string list" where
  "tags_of r = (case r_tags r of None \<Rightarrow> [] | Some ts \<Rightarrow> ts)"

text \<open>
  The weights the restaurant fallback applies: 3 for a (tag, craving word) pair, 1.5 for a
  (tag, mood word) pair, 4 for a tag that matches the craving phrase, 2 for a craving word
  in the name, 3 for the craving phrase in the name.
\<close>

definition matchScore :: "string \<Rightarrow> string list \<Rightarrow> string list \<Rightarrow> restaurant \<Rightarrow> real" where
  "matchScore cravingsLower cravingsWords moodWords r =
     3 * real (pairCount (tags_of r) cravingsWords)
     + 1.5 * real (pairCount (tags_of r) moodWords)
     + 4 * real (phraseCount (tags_of r) cravingsLower)
     + 2 * real (nameCount (r_name r) cravingsWords)
     + (if js_includes (toLowerCase (r_name r)) cravingsLower then 3 else 0)"

text \<open>The score of a candidate in a fallback run, with the cuisine-keyword rule.\<close>

definition fallbackScore :: "string \<Rightarrow> string \<Rightarrow> restaurant \<Rightarrow> real" where
  "fallbackScore mood cravings r =
     (let cravingsLower = trim (toLowerCase cravings);
          m = matchScore cravingsLower (words_of cravingsLower)
                (words_of (trim (toLowerCase mood))) r
      in if m = 0 \<and> foodTags (tags_of r) \<noteq> [] then 0.1 else m)"

text \<open>
  The score as the specification words it: 2 for a (tag, craving word) pair, 1.5 for a
  (tag, mood word) pair, 3 for a craving word in the name, 2 for a mood word in the name,
  4 for a tag that matches the craving phrase, 3 for the craving phrase in the name.
\<close>

definition specScore :: "string \<Rightarrow> string \<Rightarrow> restaurant \<Rightarrow> real" where
  "specScore mood cravings r =
     (let cravingsLower = trim (toLowerCase cravings);
          cravingsWords = words_of cravingsLower;
          moodWords = words_of (trim (toLowerCase mood))
      in 2 * real (pairCount (tags_of r) cravingsWords)
         + 1.5 * real (pairCount (tags_of r) moodWords)
         + 3 * real (nameCount (r_name r) cravingsWords)
         + 2 * real (nameCount (r_name r) moodWords)
         + 4 * real (phraseCount (tags_of r) cravingsLower)
         + (if js_includes (toLowerCase (r_name r)) cravingsLower then 3 else 0))"

text \<open>
  The \<^verbatim>\<open>try\<close> block throws before the list is used: the \<^verbatim>\<open>fetch\<close> rejects (network
  error), the response has a non-success status (whether or not its body carries the
  fallback flag), the body of a success response does not parse, or it parses to
  \<^verbatim>\<open>null\<close>.
\<close>

definition remote_failed :: "'a fetch_result \<Rightarrow> bool" where
  "remote_failed fr =
     (case fr of
        Rejected \<Rightarrow> True
      | Settled rsp \<Rightarrow> \<not> ok (status rsp) \<or> body rsp = Unparseable \<or> body rsp = JsonNull)"

text \<open>A list the restaurant resolver cannot map over: no array, or an array with a \<^verbatim>\<open>null\<close> entry.\<close>

definition unusable :: "'a option items \<Rightarrow> bool" where
  "unusable its = (case its of Missing \<Rightarrow> False | NotArray \<Rightarrow> True | Array xs \<Rightarrow> None \<in> set xs)"

definition hotspotsKey :: "string \<Rightarrow> string \<Rightarrow> string" where
  "hotspotsKey mood cravings = ''hotspots-'' @ mood @ ''-'' @ cravings"

definition restaurantsKey :: "string \<Rightarrow> string \<Rightarrow> string" where
  "restaurantsKey mood cravings = ''restaurants-'' @ mood @ ''-'' @ cravings"

text \<open>The property key under which \<^verbatim>\<open>Object.fromEntries\<close> files a suggestion.\<close>

definition reasoningKey :: "suggestion \<Rightarrow> string" where
  "reasoningKey r = (case sugg_placeId r of None \<Rightarrow> ''undefined'' | Some p \<Rightarrow> p)"

text \<open>
  A candidate is a direct match for a query: a tag matches a craving word or the craving
  phrase, or the name holds a craving word or the phrase.
\<close>

definition directMatch :: "string \<Rightarrow> string \<Rightarrow> restaurant \<Rightarrow> bool" where
  "directMatch mood cravings r =
     (let cravingsLower = trim (toLowerCase cravings);
          cravingsWords = words_of cravingsLower
      in pairCount (tags_of r) cravingsWords > 0
         \<or> phraseCount (tags_of r) cravingsLower > 0
         \<or> nameCount (r_name r) cravingsWords > 0
         \<or> js_includes (toLowerCase (r_name r)) cravingsLower)"

text \<open>The reasoning text the fallback composes for a candidate, before truncation.\<close>

definition fallbackReasoning :: "string \<Rightarrow> string \<Rightarrow> restaurant \<Rightarrow> string" where
  "fallbackReasoning mood cravings r =
     (let cravingsLower = trim (toLowerCase cravings)
      in makeReasoning r
           (scoreAcc cravingsLower (words_of cravingsLower) (words_of (trim (toLowerCase mood)))
              r))"

text \<open>The scored candidate the fallback builds from a candidate.\<close>

definition scoreOf :: "string \<Rightarrow> string \<Rightarrow> restaurant \<Rightarrow> scored" where
  "scoreOf mood cravings r =
     (let cravingsLower = trim (toLowerCase cravings)
      in scoreRestaurant cravingsLower (words_of cravingsLower)
           (words_of (trim (toLowerCase mood))) r)"

text \<open>
  Histories: the application calls the resolvers and time passes. A call is given what
  its \<^verbatim>\<open>fetch\<close> delivers, should it be issued.
\<close>

datatype call =
  HotspotCall "hotspot fetch_outcome" string string "user_profile option" "hotspot list"
| RestaurantCall "ranked_entry option fetch_outcome" string string "user_profile option"
    "restaurant list"

text \<open>A call that nothing interrupts.\<close>

fun resolve :: "call \<Rightarrow> state \<Rightarrow> cached \<times> state" where
  "resolve (HotspotCall remote mood cravings p xs) s =
     getAiFilteredHotspots remote mood cravings p xs s"
| "resolve (RestaurantCall remote mood cravings p xs) s =
     getAiRankedRestaurants remote mood cravings p xs s"

fun key_of :: "call \<Rightarrow> string" where
  "key_of (HotspotCall remote mood cravings p xs) = hotspotsKey mood cravings"
| "key_of (RestaurantCall remote mood cravings p xs) = restaurantsKey mood cravings"

fun request_of :: "call \<Rightarrow> request" where
  "request_of (HotspotCall remote mood cravings p xs) = FilterHotspots mood cravings p xs"
| "request_of (RestaurantCall remote mood cravings p xs) = RankRestaurants mood cravings p xs"

fun latency_of :: "call \<Rightarrow> nat" where
  "latency_of (HotspotCall remote mood cravings p xs) = latency remote"
| "latency_of (RestaurantCall remote mood cravings p xs) = latency remote"

text \<open>The \<^verbatim>\<open>try\<close> block of the call throws, so that its \<^verbatim>\<open>catch\<close> block runs.\<close>

fun call_failed :: "call \<Rightarrow> bool" where
  "call_failed (HotspotCall remote mood cravings p xs) = isl (try_fetch (result remote))"
| "call_failed (RestaurantCall remote mood cravings p xs) = isl (try_restaurants (result remote))"

text \<open>Two calls have the same signature: the same kind, mood and cravings.\<close>

fun same_signature :: "call \<Rightarrow> call \<Rightarrow> bool" where
  "same_signature (HotspotCall r1 m1 c1 p1 xs1) (HotspotCall r2 m2 c2 p2 xs2) =
     (m1 = m2 \<and> c1 = c2)"
| "same_signature (RestaurantCall r1 m1 c1 p1 xs1) (RestaurantCall r2 m2 c2 p2 xs2) =
     (m1 = m2 \<and> c1 = c2)"
| "same_signature a b = False"

text \<open>
  The application with its calls in flight: the state the resolvers share, and the calls
  that have issued their \<^verbatim>\<open>fetch\<close> and wait for it to settle.
\<close>

record session =
  shared :: state
  inflight :: "call list"

definition idle :: session where
  "idle = \<lparr>shared = init, inflight = []\<rparr>"

text \<open>
  The first half of a call, up to \<^verbatim>\<open>await fetch(...)\<close>: on a hit the cached value is
  returned; on a miss the request is issued and the call is in flight.
\<close>

definition beginCall :: "call \<Rightarrow> session \<Rightarrow> cached option \<times> session" where
  "beginCall c ss =
     (case cache (shared ss) (key_of c) of
        Some v \<Rightarrow> (Some v, ss)
      | None \<Rightarrow>
          (None,
           ss\<lparr>shared := (shared ss)\<lparr>requests := requests (shared ss) @ [request_of c]\<rparr>,
              inflight := inflight ss @ [c]\<rparr>))"

text \<open>The second half of a call: what runs when its \<^verbatim>\<open>fetch\<close> has settled.\<close>

fun afterFetch :: "call \<Rightarrow> state \<Rightarrow> cached \<times> state" where
  "afterFetch (HotspotCall remote mood cravings p xs) s =
     hotspotsSettled (result remote) mood cravings xs s"
| "afterFetch (RestaurantCall remote mood cravings p xs) s =
     restaurantsSettled (result remote) mood cravings xs s"

text \<open>The \<^verbatim>\<open>fetch\<close> of the \<open>i\<close>-th call in flight settles and the call runs to its end.\<close>

definition settleCall :: "nat \<Rightarrow> session \<Rightarrow> session" where
  "settleCall i ss =
     (if i < length (inflight ss)
      then ss\<lparr>shared := snd (afterFetch (inflight ss ! i) (shared ss)),
              inflight := take i (inflight ss) @ drop (Suc i) (inflight ss)\<rparr>
      else ss)"

datatype event = Wait nat | Begin call | Settle nat

fun step :: "session \<Rightarrow> event \<Rightarrow> session" where
  "step ss (Wait d) = ss\<lparr>shared := elapse d (shared ss)\<rparr>"
| "step ss (Begin c) = snd (beginCall c ss)"
| "step ss (Settle i) = settleCall i ss"

definition run :: "session \<Rightarrow> event list \<Rightarrow> session" where
  "run ss es = foldl step ss es"

text \<open>
  A history without overlap: no call begins while a call with the same cache key (in
  particular, with the same signature) is in flight.
\<close>

fun admits :: "session \<Rightarrow> event \<Rightarrow> bool" where
  "admits ss (Begin c) = (\<forall>c' \<in> set (inflight ss). key_of c' \<noteq> key_of c)"
| "admits ss e = True"

fun no_overlap :: "session \<Rightarrow> event list \<Rightarrow> bool" where
  "no_overlap ss [] = True"
| "no_overlap ss (e # es) = (admits ss e \<and> no_overlap (step ss e) es)"

text \<open>A key has at most one pending timer, and only while it is cached.\<close>

definition timers_ok :: "state \<Rightarrow> bool" where
  "timers_ok s =
     (distinct (map snd (timers s)) \<and> (\<forall>e \<in> set (timers s). cache s (snd e) \<noteq> None))"

text \<open>
  What a history without overlap maintains: the calls in flight have different keys,
  none of them cached, and the timers are in order.
\<close>

definition calm :: "session \<Rightarrow> bool" where
  "calm ss =
     (distinct (map key_of (inflight ss))
      \<and> (\<forall>c \<in> set (inflight ss). cache (shared ss) (key_of c) = None)
      \<and> timers_ok (shared ss))"

text \<open>The key holds the value and no timer will delete it before the time \<open>T\<close>.\<close>

definition holds_until :: "string \<Rightarrow> cached \<Rightarrow> nat \<Rightarrow> state \<Rightarrow> bool" where
  "holds_until k v T s =
     (cache s k = Some v \<and> (\<forall>e \<in> set (timers s). snd e = k \<longrightarrow> T \<le> fst e))"

text \<open>Moreover no call in flight will overwrite it.\<close>

definition settled_until :: "string \<Rightarrow> cached \<Rightarrow> nat \<Rightarrow> session \<Rightarrow> bool" where
  "settled_until k v T ss =
     (holds_until k v T (shared ss) \<and> (\<forall>c \<in> set (inflight ss). key_of c \<noteq> k))"

section \<open>Properties\<close>

subsection \<open>The sort\<close>

lemma mset_js_insert: "mset (js_insert cmp x xs) = add_mset x (mset xs)"
  by (induction xs) auto

lemma mset_js_sort: "mset (js_sort cmp xs) = mset xs"
  unfolding js_sort_def by (induction xs) (auto simp: mset_js_insert)

lemma set_js_insert: "set (js_insert cmp x xs) = insert x (set xs)"
  by (induction xs) auto

lemma sorted_js_insert:
  assumes total: "\<And>a b. cmp a b \<le> 0 \<or> cmp b a \<le> 0"
    and trans: "\<And>a b c. cmp a b \<le> 0 \<Longrightarrow> cmp b c \<le> 0 \<Longrightarrow> cmp a c \<le> 0"
    and sorted: "sorted_wrt (\<lambda>a b. cmp a b \<le> 0) xs"
  shows "sorted_wrt (\<lambda>a b. cmp a b \<le> 0) (js_insert cmp x xs)"
  using sorted
proof (induction xs)
  case Nil
  then show ?case by simp
next
  case (Cons y ys)
  show ?case
  proof (cases "cmp x y \<le> 0")
    case True
    with Cons.prems trans show ?thesis by auto
  next
    case False
    with total have "cmp y x \<le> 0" by blast
    with False Cons show ?thesis by (auto simp: set_js_insert)
  qed
qed

lemma sorted_js_sort:
  assumes total: "\<And>a b. cmp a b \<le> 0 \<or> cmp b a \<le> 0"
    and trans: "\<And>a b c. cmp a b \<le> 0 \<Longrightarrow> cmp b c \<le> 0 \<Longrightarrow> cmp a c \<le> 0"
  shows "sorted_wrt (\<lambda>a b. cmp a b \<le> 0) (js_sort cmp xs)"
proof (induction xs)
  case Nil
  then show ?case by (simp add: js_sort_def)
next
  case (Cons x xs)
  have "js_sort cmp (x # xs) = js_insert cmp x (js_sort cmp xs)"
    by (simp add: js_sort_def)
  with Cons sorted_js_insert [of cmp, OF total trans] show ?case by simp
qed

lemma filter_js_insert_in:
  assumes "P x" and "\<And>y. P y \<Longrightarrow> cmp x y \<le> 0"
  shows "filter P (js_insert cmp x xs) = x # filter P xs"
  using assms by (induction xs) auto

lemma filter_js_insert_out:
  "\<not> P x \<Longrightarrow> filter P (js_insert cmp x xs) = filter P xs"
  by (induction xs) auto

lemma js_sort_stable:
  assumes "\<And>a b. P a \<Longrightarrow> P b \<Longrightarrow> cmp a b \<le> 0"
  shows "filter P (js_sort cmp xs) = filter P xs"
proof (induction xs)
  case Nil
  then show ?case by (simp add: js_sort_def)
next
  case (Cons x xs)
  have step: "js_sort cmp (x # xs) = js_insert cmp x (js_sort cmp xs)"
    by (simp add: js_sort_def)
  show ?case
  proof (cases "P x")
    case True
    then have "filter P (js_insert cmp x (js_sort cmp xs)) = x # filter P (js_sort cmp xs)"
      using assms by (intro filter_js_insert_in) auto
    with True Cons step show ?thesis by simp
  next
    case False
    with Cons step show ?thesis by (simp add: filter_js_insert_out)
  qed
qed

lemma js_insert_map:
  "js_insert cmp (g x) (map g xs) = map g (js_insert (\<lambda>a b. cmp (g a) (g b)) x xs)"
  by (induction xs) auto

lemma js_sort_map:
  "js_sort cmp (map g xs) = map g (js_sort (\<lambda>a b. cmp (g a) (g b)) xs)"
  unfolding js_sort_def by (induction xs) (auto simp: js_insert_map)

subsection \<open>The hotspot fallback\<close>

lemma hotspotFallback_eq:
  "hotspotFallback mood cravings xs =
     map fst (js_sort (\<lambda>a b. snd b - snd a) (map (\<lambda>h. (h, hotspotScore mood cravings h)) xs))"
  by (simp add: hotspotFallback_def hotspotScore_def Let_def)

lemma hotspotFallback_sort:
  "hotspotFallback mood cravings xs
     = js_sort (\<lambda>a b. hotspotScore mood cravings b - hotspotScore mood cravings a) xs"
  unfolding hotspotFallback_eq js_sort_map by (simp add: comp_def)

lemma mset_hotspotFallback: "mset (hotspotFallback mood cravings xs) = mset xs"
  unfolding hotspotFallback_sort by (rule mset_js_sort)

lemma sorted_hotspotFallback:
  "sorted_wrt (\<lambda>a b. hotspotScore mood cravings a \<ge> hotspotScore mood cravings b)
     (hotspotFallback mood cravings xs)"
proof -
  have "sorted_wrt (\<lambda>a b. hotspotScore mood cravings b - hotspotScore mood cravings a \<le> 0)
          (hotspotFallback mood cravings xs)"
    unfolding hotspotFallback_sort by (rule sorted_js_sort) auto
  then show ?thesis by simp
qed

lemma stable_hotspotFallback:
  "filter (\<lambda>h. hotspotScore mood cravings h = k) (hotspotFallback mood cravings xs)
     = filter (\<lambda>h. hotspotScore mood cravings h = k) xs"
  unfolding hotspotFallback_sort by (rule js_sort_stable) simp

lemma fallback_hotspots_run:
  assumes "cache s (''hotspots-'' @ mood @ ''-'' @ cravings) = None"
    and "try_fetch (result remote) = Inl e"
  shows "fst (getAiFilteredHotspots remote mood cravings p xs s)
           = Hotspots (hotspotFallback mood cravings xs)"
  using assms by (simp add: getAiFilteredHotspots_def hotspotsSettled_def Let_def)

text \<open>
  Claim C4. In a fallback-mode hotspot resolution (the key is not cached and the remote
  call fails) the returned list has the length of the candidate list and is that list
  reordered: it has the same elements with the same multiplicities, scores descend along
  it, and candidates of equal score keep their input order.
\<close>

theorem hotspot_fallback_complete:
  assumes "cache s (''hotspots-'' @ mood @ ''-'' @ cravings) = None"
    and "try_fetch (result remote) = Inl e"
  shows "\<exists>res. fst (getAiFilteredHotspots remote mood cravings p allHotspots s) = Hotspots res
           \<and> length res = length allHotspots
           \<and> mset res = mset allHotspots
           \<and> sorted_wrt (\<lambda>a b. hotspotScore mood cravings a \<ge> hotspotScore mood cravings b) res
           \<and> (\<forall>k. filter (\<lambda>h. hotspotScore mood cravings h = k) res
                    = filter (\<lambda>h. hotspotScore mood cravings h = k) allHotspots)"
proof (intro exI conjI allI)
  show "fst (getAiFilteredHotspots remote mood cravings p allHotspots s)
          = Hotspots (hotspotFallback mood cravings allHotspots)"
    by (rule fallback_hotspots_run [OF assms])
  show "mset (hotspotFallback mood cravings allHotspots) = mset allHotspots"
    by (rule mset_hotspotFallback)
  then show "length (hotspotFallback mood cravings allHotspots) = length allHotspots"
    by (rule mset_eq_length)
  show "sorted_wrt (\<lambda>a b. hotspotScore mood cravings a \<ge> hotspotScore mood cravings b)
          (hotspotFallback mood cravings allHotspots)"
    by (rule sorted_hotspotFallback)
  show "filter (\<lambda>h. hotspotScore mood cravings h = k) (hotspotFallback mood cravings allHotspots)
          = filter (\<lambda>h. hotspotScore mood cravings h = k) allHotspots" for k
    by (rule stable_hotspotFallback)
qed


theorem hotspot_fallback_complete_witness:
  "cache init (''hotspots-'' @ ''happy'' @ ''-'' @ ''pizza'') = None
   \<and> try_fetch (result \<lparr>latency = 250, result = (Rejected :: hotspot fetch_result)\<rparr>)
         = Inl FetchRejected
   \<and> (\<exists>res. fst (getAiFilteredHotspots \<lparr>latency = 250, result = Rejected\<rparr> ''happy'' ''pizza'' None
                     [\<lparr>h_id = 3, h_name = ''Greenpoint'', h_address = ''Brooklyn'',
                        review_count = 6100, h_tags = Some [''polish'', ''donuts'']\<rparr>,
                      \<lparr>h_id = 6, h_name = ''DUMBO'', h_address = ''Brooklyn'',
                        review_count = 9100, h_tags = Some [''pizza'', ''views'']\<rparr>] init)
                 = Hotspots res
            \<and> length res = 2)"
proof -
  have miss: "cache init (''hotspots-'' @ ''happy'' @ ''-'' @ ''pizza'') = None"
    by (simp add: init_def)
  have fails: "try_fetch (result \<lparr>latency = 250, result = (Rejected :: hotspot fetch_result)\<rparr>)
                 = Inl FetchRejected"
    by (simp add: try_fetch_def)
  from hotspot_fallback_complete [OF miss fails] miss fails show ?thesis
    by fastforce
qed

subsection \<open>The restaurant scores\<close>

lemma acc_score_pushTag [simp]: "acc_score (pushTag tag a) = acc_score a"
  by (simp add: pushTag_def)

lemma acc_score_cravings:
  "acc_score (foldl (cravingTagStep tag tg) a ws)
     = acc_score a + 3 * real (length (filter (matches tg) ws))"
  by (induction ws arbitrary: a) (auto simp: cravingTagStep_def matches_def)

lemma acc_score_moods:
  "acc_score (foldl (moodTagStep tag tg) a ws)
     = acc_score a + 1.5 * real (length (filter (matches tg) ws))"
  by (induction ws arbitrary: a) (auto simp: moodTagStep_def matches_def)

lemma acc_score_phrase:
  "acc_score (phraseTagStep tag tg cl a) = acc_score a + (if matches tg cl then 4 else 0)"
  by (simp add: phraseTagStep_def matches_def)

lemma acc_score_tagStep:
  "acc_score (tagStep cl cw mw a tag)
     = acc_score a
       + 3 * real (length (filter (matches (toLowerCase tag)) cw))
       + (if matches (toLowerCase tag) cl then 4 else 0)
       + 1.5 * real (length (filter (matches (toLowerCase tag)) mw))"
  by (simp add: tagStep_def Let_def acc_score_cravings acc_score_moods acc_score_phrase)

lemma pairCount_Nil [simp]: "pairCount [] ws = 0"
  by (simp add: pairCount_def)

lemma pairCount_Cons:
  "pairCount (t # ts) ws = length (filter (matches (toLowerCase t)) ws) + pairCount ts ws"
  by (simp add: pairCount_def filter_map comp_def)

lemma phraseCount_Nil [simp]: "phraseCount [] cl = 0"
  by (simp add: phraseCount_def)

lemma phraseCount_Cons:
  "phraseCount (t # ts) cl = (if matches (toLowerCase t) cl then 1 else 0) + phraseCount ts cl"
  by (simp add: phraseCount_def)

lemma acc_score_tags:
  "acc_score (foldl (tagStep cl cw mw) a ts)
     = acc_score a + 3 * real (pairCount ts cw) + 4 * real (phraseCount ts cl)
       + 1.5 * real (pairCount ts mw)"
proof (induction ts arbitrary: a)
  case Nil
  then show ?case by simp
next
  case (Cons t ts)
  have "acc_score (foldl (tagStep cl cw mw) a (t # ts))
          = acc_score (tagStep cl cw mw a t) + 3 * real (pairCount ts cw)
            + 4 * real (phraseCount ts cl) + 1.5 * real (pairCount ts mw)"
    using Cons.IH [of "tagStep cl cw mw a t"] by simp
  then show ?case
    by (simp add: acc_score_tagStep pairCount_Cons phraseCount_Cons algebra_simps)
qed

lemma acc_score_checkTags:
  "acc_score (checkTags cl cw mw r a)
     = acc_score a + 3 * real (pairCount (tags_of r) cw) + 4 * real (phraseCount (tags_of r) cl)
       + 1.5 * real (pairCount (tags_of r) mw)"
  by (cases "r_tags r") (simp_all add: checkTags_def tags_of_def Let_def acc_score_tags)

lemma acc_score_names:
  "acc_score (foldl (nameStep nl) a ws)
     = acc_score a + 2 * real (length (filter (js_includes nl) ws))"
  by (induction ws arbitrary: a) (auto simp: nameStep_def Let_def)

lemma acc_score_namePhrase:
  "acc_score (namePhraseStep nl cl a) = acc_score a + (if js_includes nl cl then 3 else 0)"
  by (simp add: namePhraseStep_def)

lemma acc_score_cuisine:
  "acc_score (cuisineStep r a)
     = (if acc_score a = 0 \<and> foodTags (tags_of r) \<noteq> [] then 0.1 else acc_score a)"
  by (cases "r_tags r") (auto simp: cuisineStep_def tags_of_def foodTags_def split: list.splits)

lemma acc_score_before_cuisine:
  "acc_score (namePhraseStep (toLowerCase (r_name r)) cl
       (foldl (nameStep (toLowerCase (r_name r)))
          (checkTags cl cw mw r \<lparr>acc_score = 0, acc_direct = False, acc_matched = [], acc_parts = []\<rparr>)
          cw))
     = matchScore cl cw mw r"
  by (simp add: acc_score_namePhrase acc_score_names acc_score_checkTags matchScore_def
      nameCount_def)

lemma score_scoreRestaurant:
  "score (scoreRestaurant cl cw mw r)
     = (if matchScore cl cw mw r = 0 \<and> foodTags (tags_of r) \<noteq> [] then 0.1
        else matchScore cl cw mw r)"
  by (simp add: scoreRestaurant_def scoreAcc_def Let_def acc_score_cuisine
      acc_score_before_cuisine)

text \<open>
  Claim C2, as amended. In a fallback run the score of every restaurant candidate is
  3 for each (tag, craving word) pair whose lower-cased tag contains the word or is
  contained in it, 1.5 for each such (tag, mood word) pair, 4 for each tag that contains
  the lower-cased, trimmed craving phrase or is contained in it, 2 for each craving word
  present in the lower-cased name, and 3 if the phrase is in the name; mood words in the
  name add nothing. A sum of 0 becomes 0.1 when a tag holds a cuisine keyword.
\<close>

theorem restaurant_fallback_score:
  "map score (scoredRestaurants mood cravings allRestaurants)
     = map (fallbackScore mood cravings) allRestaurants"
  by (simp add: scoredRestaurants_def fallbackScore_def Let_def score_scoreRestaurant)

text \<open>
  Claim C2 as stated fails: for a restaurant named Pronto with the single tag pizza, mood
  happy and craving pizza, the code scores 3 + 4 = 7 where the claim's weights give
  2 + 4 = 6.
\<close>

theorem restaurant_fallback_score_counterexample:
  "map score (scoredRestaurants ''happy'' ''pizza''
       [\<lparr>placeId = ''p1'', r_name = ''Pronto'', r_address = ''789 Atlantic Ave'',
         r_tags = Some [''pizza''], cuisine = ''Pizza''\<rparr>]) = [7]
   \<and> map (specScore ''happy'' ''pizza'')
       [\<lparr>placeId = ''p1'', r_name = ''Pronto'', r_address = ''789 Atlantic Ave'',
         r_tags = Some [''pizza''], cuisine = ''Pizza''\<rparr>] = [6]"
  by code_simp

subsection \<open>The restaurant fallback\<close>

lemma acc_direct_pushTag [simp]: "acc_direct (pushTag tag a) = acc_direct a"
  by (simp add: pushTag_def)

lemma acc_direct_cravings:
  "acc_direct (foldl (cravingTagStep tag tg) a ws)
     = (acc_direct a \<or> filter (matches tg) ws \<noteq> [])"
  by (induction ws arbitrary: a) (auto simp: cravingTagStep_def matches_def)

lemma acc_direct_moods: "acc_direct (foldl (moodTagStep tag tg) a ws) = acc_direct a"
  by (induction ws arbitrary: a) (auto simp: moodTagStep_def)

lemma acc_direct_phrase:
  "acc_direct (phraseTagStep tag tg cl a) = (acc_direct a \<or> matches tg cl)"
  by (simp add: phraseTagStep_def matches_def)

lemma acc_direct_tagStep:
  "acc_direct (tagStep cl cw mw a tag)
     = (acc_direct a \<or> filter (matches (toLowerCase tag)) cw \<noteq> []
        \<or> matches (toLowerCase tag) cl)"
  by (simp add: tagStep_def Let_def acc_direct_cravings acc_direct_moods acc_direct_phrase)

lemma acc_direct_tags:
  "acc_direct (foldl (tagStep cl cw mw) a ts)
     = (acc_direct a \<or> pairCount ts cw > 0 \<or> phraseCount ts cl > 0)"
proof (induction ts arbitrary: a)
  case Nil
  then show ?case by simp
next
  case (Cons t ts)
  have "acc_direct (foldl (tagStep cl cw mw) a (t # ts))
          = (acc_direct (tagStep cl cw mw a t) \<or> pairCount ts cw > 0 \<or> phraseCount ts cl > 0)"
    using Cons.IH [of "tagStep cl cw mw a t"] by simp
  then show ?case
    by (auto simp: acc_direct_tagStep pairCount_Cons phraseCount_Cons)
qed

lemma acc_direct_checkTags:
  "acc_direct (checkTags cl cw mw r a)
     = (acc_direct a \<or> pairCount (tags_of r) cw > 0 \<or> phraseCount (tags_of r) cl > 0)"
  by (cases "r_tags r") (simp_all add: checkTags_def tags_of_def Let_def acc_direct_tags)

lemma acc_direct_names:
  "acc_direct (foldl (nameStep nl) a ws) = (acc_direct a \<or> filter (js_includes nl) ws \<noteq> [])"
  by (induction ws arbitrary: a) (auto simp: nameStep_def Let_def)

lemma acc_direct_namePhrase:
  "acc_direct (namePhraseStep nl cl a) = (acc_direct a \<or> js_includes nl cl)"
  by (simp add: namePhraseStep_def)

lemma acc_direct_cuisine: "acc_direct (cuisineStep r a) = acc_direct a"
  by (cases "r_tags r") (auto simp: cuisineStep_def split: list.splits)

lemma hasDirectMatch_scoreRestaurant:
  "hasDirectMatch (scoreRestaurant cl cw mw r)
     = (pairCount (tags_of r) cw > 0 \<or> phraseCount (tags_of r) cl > 0
        \<or> nameCount (r_name r) cw > 0 \<or> js_includes (toLowerCase (r_name r)) cl)"
  by (simp add: scoreRestaurant_def scoreAcc_def Let_def acc_direct_cuisine
      acc_direct_namePhrase acc_direct_names acc_direct_checkTags nameCount_def)

lemma directFirst_total: "directFirst a b \<le> 0 \<or> directFirst b a \<le> 0"
  by (auto simp: directFirst_def)

lemma directFirst_trans:
  "directFirst a b \<le> 0 \<Longrightarrow> directFirst b c \<le> 0 \<Longrightarrow> directFirst a c \<le> 0"
  by (auto simp: directFirst_def split: if_splits)

lemma directFirst_le_iff:
  "directFirst a b \<le> 0 \<longleftrightarrow>
     (hasDirectMatch a \<and> \<not> hasDirectMatch b)
     \<or> (hasDirectMatch a = hasDirectMatch b \<and> score b \<le> score a)"
  by (auto simp: directFirst_def)

lemma score_scoreOf: "score (scoreOf mood cravings r) = fallbackScore mood cravings r"
  by (simp add: scoreOf_def fallbackScore_def Let_def score_scoreRestaurant)

lemma hasDirectMatch_scoreOf:
  "hasDirectMatch (scoreOf mood cravings r) = directMatch mood cravings r"
  by (simp add: scoreOf_def directMatch_def Let_def hasDirectMatch_scoreRestaurant)

lemma toSuggestion_scoreOf:
  "toSuggestion (scoreOf mood cravings r)
     = \<lparr>sugg_placeId = Some (placeId r),
        reasoning = take 120 (fallbackReasoning mood cravings r)\<rparr>"
  by (simp add: toSuggestion_def scoreOf_def scoreRestaurant_def fallbackReasoning_def Let_def)

lemma scoredRestaurants_scoreOf:
  "scoredRestaurants mood cravings xs = map (scoreOf mood cravings) xs"
  by (simp add: scoredRestaurants_def scoreOf_def Let_def)

lemma restaurantFallback_kept:
  "restaurantFallback mood cravings xs
     = map (\<lambda>r. \<lparr>sugg_placeId = Some (placeId r),
                   reasoning = take 120 (fallbackReasoning mood cravings r)\<rparr>)
         (filter (\<lambda>r. fallbackScore mood cravings r > 0)
            (js_sort (\<lambda>a b. directFirst (scoreOf mood cravings a) (scoreOf mood cravings b)) xs))"
  unfolding restaurantFallback_def scoredRestaurants_scoreOf js_sort_map
  by (simp add: filter_map comp_def score_scoreOf toSuggestion_scoreOf)

lemma compare_scoreOf:
  "directFirst (scoreOf mood cravings a) (scoreOf mood cravings b) \<le> 0 \<longleftrightarrow>
     (directMatch mood cravings a \<and> \<not> directMatch mood cravings b)
     \<or> (directMatch mood cravings a = directMatch mood cravings b
         \<and> fallbackScore mood cravings b \<le> fallbackScore mood cravings a)"
  by (simp add: directFirst_le_iff score_scoreOf hasDirectMatch_scoreOf)

lemma sorted_kept:
  "sorted_wrt (\<lambda>a b. directFirst (scoreOf mood cravings a) (scoreOf mood cravings b) \<le> 0)
     (filter P (js_sort (\<lambda>a b. directFirst (scoreOf mood cravings a) (scoreOf mood cravings b))
        xs))"
proof -
  let ?cmp = "\<lambda>a b. directFirst (scoreOf mood cravings a) (scoreOf mood cravings b)"
  have "sorted_wrt (\<lambda>a b. ?cmp a b \<le> 0) (js_sort ?cmp xs)"
  proof (rule sorted_js_sort)
    show "?cmp a b \<le> 0 \<or> ?cmp b a \<le> 0" for a b
      by (rule directFirst_total)
    show "?cmp a b \<le> 0 \<Longrightarrow> ?cmp b c \<le> 0 \<Longrightarrow> ?cmp a c \<le> 0" for a b c
      by (rule directFirst_trans)
  qed
  then show ?thesis by (rule sorted_wrt_filter)
qed

lemma stable_kept:
  "filter (\<lambda>r. directMatch mood cravings r = d \<and> fallbackScore mood cravings r = k)
     (filter P (js_sort (\<lambda>a b. directFirst (scoreOf mood cravings a) (scoreOf mood cravings b))
        xs))
     = filter (\<lambda>r. directMatch mood cravings r = d \<and> fallbackScore mood cravings r = k)
         (filter P xs)"
proof -
  let ?cmp = "\<lambda>a b. directFirst (scoreOf mood cravings a) (scoreOf mood cravings b)"
  let ?Q = "\<lambda>r. P r \<and> directMatch mood cravings r = d \<and> fallbackScore mood cravings r = k"
  have "filter ?Q (js_sort ?cmp xs) = filter ?Q xs"
    by (rule js_sort_stable) (simp add: compare_scoreOf)
  then show ?thesis by (simp add: conj_commute)
qed

lemma fallback_restaurants_run:
  assumes "cache s (''restaurants-'' @ mood @ ''-'' @ cravings) = None"
    and "try_restaurants (result remote) = Inl e"
  shows "fst (getAiRankedRestaurants remote mood cravings p xs s)
           = Suggestions (restaurantFallback mood cravings xs)"
  using assms by (simp add: getAiRankedRestaurants_def restaurantsSettled_def Let_def)

text \<open>
  Claim C3. In a fallback-mode restaurant resolution (the key is not cached and the
  \<^verbatim>\<open>try\<close> block throws) the returned suggestions name, one for one and in this order, the
  candidates \<open>kept\<close>: exactly the candidates of the input whose score is greater than 0;
  direct matches come first, within equal flags scores descend, and candidates with equal
  flag and score keep their input order.
\<close>

theorem restaurant_fallback_order:
  assumes "cache s (''restaurants-'' @ mood @ ''-'' @ cravings) = None"
    and "try_restaurants (result remote) = Inl e"
  shows "\<exists>kept. fst (getAiRankedRestaurants remote mood cravings p allRestaurants s)
                  = Suggestions
                      (map (\<lambda>r. \<lparr>sugg_placeId = Some (placeId r),
                                  reasoning = take 120 (fallbackReasoning mood cravings r)\<rparr>)
                         kept)
           \<and> mset kept = filter_mset (\<lambda>r. fallbackScore mood cravings r > 0)
                             (mset allRestaurants)
           \<and> sorted_wrt (\<lambda>a b. (directMatch mood cravings a \<and> \<not> directMatch mood cravings b)
                                \<or> (directMatch mood cravings a = directMatch mood cravings b
                                    \<and> fallbackScore mood cravings b
                                        \<le> fallbackScore mood cravings a)) kept
           \<and> (\<forall>d k. filter (\<lambda>r. directMatch mood cravings r = d
                                  \<and> fallbackScore mood cravings r = k) kept
                    = filter (\<lambda>r. directMatch mood cravings r = d
                                  \<and> fallbackScore mood cravings r = k)
                        (filter (\<lambda>r. fallbackScore mood cravings r > 0) allRestaurants))"
proof (intro exI conjI allI)
  let ?cmp = "\<lambda>a b. directFirst (scoreOf mood cravings a) (scoreOf mood cravings b)"
  let ?kept = "filter (\<lambda>r. fallbackScore mood cravings r > 0) (js_sort ?cmp allRestaurants)"
  show "fst (getAiRankedRestaurants remote mood cravings p allRestaurants s)
          = Suggestions
              (map (\<lambda>r. \<lparr>sugg_placeId = Some (placeId r),
                          reasoning = take 120 (fallbackReasoning mood cravings r)\<rparr>) ?kept)"
    using fallback_restaurants_run [OF assms] by (simp only: restaurantFallback_kept)
  show "mset ?kept = filter_mset (\<lambda>r. fallbackScore mood cravings r > 0) (mset allRestaurants)"
    by (simp add: mset_js_sort)
  show "sorted_wrt (\<lambda>a b. (directMatch mood cravings a \<and> \<not> directMatch mood cravings b)
                        \<or> (directMatch mood cravings a = directMatch mood cravings b
                            \<and> fallbackScore mood cravings b \<le> fallbackScore mood cravings a))
          ?kept"
    using sorted_kept [of mood cravings "\<lambda>r. fallbackScore mood cravings r > 0" allRestaurants]
    by (simp only: compare_scoreOf)
  show "filter (\<lambda>r. directMatch mood cravings r = d \<and> fallbackScore mood cravings r = k) ?kept
          = filter (\<lambda>r. directMatch mood cravings r = d \<and> fallbackScore mood cravings r = k)
              (filter (\<lambda>r. fallbackScore mood cravings r > 0) allRestaurants)"
    for d k
    by (rule stable_kept)
qed

theorem restaurant_fallback_order_witness:
  "cache init (''restaurants-'' @ ''cozy'' @ ''-'' @ ''pizza'') = None
   \<and> try_restaurants (result \<lparr>latency = 250, result = Settled (Response 500 (Json True Missing))\<rparr>) = Inl BackendFallback
   \<and> (\<exists>kept. fst (getAiRankedRestaurants \<lparr>latency = 250, result = Settled (Response 500 (Json True Missing))\<rparr> ''cozy'' ''pizza'' None [\<lparr>placeId = ''p1'', r_name = ''The Cozy Corner'', r_address = ''123 Main St'',
            r_tags = Some [''cozy'', ''bistro''], cuisine = ''American''\<rparr>,
          \<lparr>placeId = ''p2'', r_name = ''Pronto Pizza'', r_address = ''789 Atlantic Ave'',
            r_tags = Some [''pizza'', ''quick''], cuisine = ''Pizza''\<rparr>] init)
                  = Suggestions
                      (map (\<lambda>r. \<lparr>sugg_placeId = Some (placeId r),
                                  reasoning = take 120 (fallbackReasoning ''cozy'' ''pizza'' r)\<rparr>)
                         kept)
           \<and> mset kept = filter_mset (\<lambda>r. fallbackScore ''cozy'' ''pizza'' r > 0)
                             (mset [\<lparr>placeId = ''p1'', r_name = ''The Cozy Corner'', r_address = ''123 Main St'',
            r_tags = Some [''cozy'', ''bistro''], cuisine = ''American''\<rparr>,
          \<lparr>placeId = ''p2'', r_name = ''Pronto Pizza'', r_address = ''789 Atlantic Ave'',
            r_tags = Some [''pizza'', ''quick''], cuisine = ''Pizza''\<rparr>])
           \<and> sorted_wrt (\<lambda>a b. (directMatch ''cozy'' ''pizza'' a \<and> \<not> directMatch ''cozy'' ''pizza'' b)
                                \<or> (directMatch ''cozy'' ''pizza'' a = directMatch ''cozy'' ''pizza'' b
                                    \<and> fallbackScore ''cozy'' ''pizza'' b
                                        \<le> fallbackScore ''cozy'' ''pizza'' a)) kept
           \<and> (\<forall>d k. filter (\<lambda>r. directMatch ''cozy'' ''pizza'' r = d
                                  \<and> fallbackScore ''cozy'' ''pizza'' r = k) kept
                    = filter (\<lambda>r. directMatch ''cozy'' ''pizza'' r = d
                                  \<and> fallbackScore ''cozy'' ''pizza'' r = k)
                        (filter (\<lambda>r. fallbackScore ''cozy'' ''pizza'' r > 0) [\<lparr>placeId = ''p1'', r_name = ''The Cozy Corner'', r_address = ''123 Main St'',
            r_tags = Some [''cozy'', ''bistro''], cuisine = ''American''\<rparr>,
          \<lparr>placeId = ''p2'', r_name = ''Pronto Pizza'', r_address = ''789 Atlantic Ave'',
            r_tags = Some [''pizza'', ''quick''], cuisine = ''Pizza''\<rparr>])))
   \<and> fst (getAiRankedRestaurants \<lparr>latency = 250, result = Settled (Response 500 (Json True Missing))\<rparr> ''cozy'' ''pizza'' None
        [\<lparr>placeId = ''p1'', r_name = ''The Cozy Corner'', r_address = ''123 Main St'',
            r_tags = Some [''cozy'', ''bistro''], cuisine = ''American''\<rparr>,
          \<lparr>placeId = ''p2'', r_name = ''Pronto Pizza'', r_address = ''789 Atlantic Ave'',
            r_tags = Some [''pizza'', ''quick''], cuisine = ''Pizza''\<rparr>] init)
       = Suggestions
          [\<lparr>sugg_placeId = Some ''p2'', reasoning = ''Pronto Pizza - serves pizza''\<rparr>,
           \<lparr>sugg_placeId = Some ''p1'', reasoning = ''The Cozy Corner - serves cozy''\<rparr>]"
proof -
  have miss: "cache init (''restaurants-'' @ ''cozy'' @ ''-'' @ ''pizza'') = None"
    by (simp add: init_def)
  have fails: "try_restaurants (result \<lparr>latency = 250, result = Settled (Response 500 (Json True Missing))\<rparr>) = Inl BackendFallback"
    by (simp add: try_restaurants_def try_fetch_def ok_def)
  have ordered: "\<exists>kept. fst (getAiRankedRestaurants \<lparr>latency = 250, result = Settled (Response 500 (Json True Missing))\<rparr> ''cozy'' ''pizza'' None [\<lparr>placeId = ''p1'', r_name = ''The Cozy Corner'', r_address = ''123 Main St'',
            r_tags = Some [''cozy'', ''bistro''], cuisine = ''American''\<rparr>,
          \<lparr>placeId = ''p2'', r_name = ''Pronto Pizza'', r_address = ''789 Atlantic Ave'',
            r_tags = Some [''pizza'', ''quick''], cuisine = ''Pizza''\<rparr>] init)
                  = Suggestions
                      (map (\<lambda>r. \<lparr>sugg_placeId = Some (placeId r),
                                  reasoning = take 120 (fallbackReasoning ''cozy'' ''pizza'' r)\<rparr>)
                         kept)
           \<and> mset kept = filter_mset (\<lambda>r. fallbackScore ''cozy'' ''pizza'' r > 0)
                             (mset [\<lparr>placeId = ''p1'', r_name = ''The Cozy Corner'', r_address = ''123 Main St'',
            r_tags = Some [''cozy'', ''bistro''], cuisine = ''American''\<rparr>,
          \<lparr>placeId = ''p2'', r_name = ''Pronto Pizza'', r_address = ''789 Atlantic Ave'',
            r_tags = Some [''pizza'', ''quick''], cuisine = ''Pizza''\<rparr>])
           \<and> sorted_wrt (\<lambda>a b. (directMatch ''cozy'' ''pizza'' a \<and> \<not> directMatch ''cozy'' ''pizza'' b)
                                \<or> (directMatch ''cozy'' ''pizza'' a = directMatch ''cozy'' ''pizza'' b
                                    \<and> fallbackScore ''cozy'' ''pizza'' b
                                        \<le> fallbackScore ''cozy'' ''pizza'' a)) kept
           \<and> (\<forall>d k. filter (\<lambda>r. directMatch ''cozy'' ''pizza'' r = d
                                  \<and> fallbackScore ''cozy'' ''pizza'' r = k) kept
                    = filter (\<lambda>r. directMatch ''cozy'' ''pizza'' r = d
                                  \<and> fallbackScore ''cozy'' ''pizza'' r = k)
                        (filter (\<lambda>r. fallbackScore ''cozy'' ''pizza'' r > 0) [\<lparr>placeId = ''p1'', r_name = ''The Cozy Corner'', r_address = ''123 Main St'',
            r_tags = Some [''cozy'', ''bistro''], cuisine = ''American''\<rparr>,
          \<lparr>placeId = ''p2'', r_name = ''Pronto Pizza'', r_address = ''789 Atlantic Ave'',
            r_tags = Some [''pizza'', ''quick''], cuisine = ''Pizza''\<rparr>]))"
    by (rule restaurant_fallback_order [OF miss fails])
  have evald: "restaurantFallback ''cozy'' ''pizza''
        [\<lparr>placeId = ''p1'', r_name = ''The Cozy Corner'', r_address = ''123 Main St'',
            r_tags = Some [''cozy'', ''bistro''], cuisine = ''American''\<rparr>,
          \<lparr>placeId = ''p2'', r_name = ''Pronto Pizza'', r_address = ''789 Atlantic Ave'',
            r_tags = Some [''pizza'', ''quick''], cuisine = ''Pizza''\<rparr>]
      = [\<lparr>sugg_placeId = Some ''p2'', reasoning = ''Pronto Pizza - serves pizza''\<rparr>,
         \<lparr>sugg_placeId = Some ''p1'', reasoning = ''The Cozy Corner - serves cozy''\<rparr>]"
    by code_simp
  have returned: "fst (getAiRankedRestaurants \<lparr>latency = 250, result = Settled (Response 500 (Json True Missing))\<rparr> ''cozy'' ''pizza'' None
        [\<lparr>placeId = ''p1'', r_name = ''The Cozy Corner'', r_address = ''123 Main St'',
            r_tags = Some [''cozy'', ''bistro''], cuisine = ''American''\<rparr>,
          \<lparr>placeId = ''p2'', r_name = ''Pronto Pizza'', r_address = ''789 Atlantic Ave'',
            r_tags = Some [''pizza'', ''quick''], cuisine = ''Pizza''\<rparr>] init)
       = Suggestions
          [\<lparr>sugg_placeId = Some ''p2'', reasoning = ''Pronto Pizza - serves pizza''\<rparr>,
           \<lparr>sugg_placeId = Some ''p1'', reasoning = ''The Cozy Corner - serves cozy''\<rparr>]"
    using fallback_restaurants_run [OF miss fails] by (simp only: evald)
  from miss fails ordered returned show ?thesis
    by (intro conjI)
qed

subsection \<open>Failure of the remote call\<close>

lemma try_fetch_failed: "remote_failed fr \<Longrightarrow> \<exists>e. try_fetch fr = Inl e"
  by (auto simp: remote_failed_def try_fetch_def split: fetch_result.splits body.splits)

lemma try_fetch_not_failed:
  "\<not> remote_failed fr \<Longrightarrow> \<exists>rsp fb its. fr = Settled rsp \<and> ok (status rsp)
     \<and> body rsp = Json fb its \<and> try_fetch fr = Inr its"
  by (cases fr) (auto simp: remote_failed_def try_fetch_def split: body.splits)

lemma try_fetch_parsed:
  "ok st \<Longrightarrow> try_fetch (Settled (Response st (Json fb its))) = Inr its"
  by (simp add: try_fetch_def)

lemma those_map_Some [simp]: "those (map Some ys) = Some ys"
  by (induction ys) simp_all

lemma those_None: "None \<in> set xs \<Longrightarrow> those xs = None"
  by (induction xs) (auto split: option.splits)

lemma try_restaurants_failed: "remote_failed fr \<Longrightarrow> \<exists>e. try_restaurants fr = Inl e"
  using try_fetch_failed [of fr] by (auto simp: try_restaurants_def)

lemma try_restaurants_unusable:
  "ok st \<Longrightarrow> unusable its
     \<Longrightarrow> try_restaurants (Settled (Response st (Json fb its))) = Inl TypeError"
  by (cases its) (simp_all add: try_restaurants_def try_fetch_parsed unusable_def those_None)

lemma hotspots_miss_failed:
  assumes "cache s (hotspotsKey mood cravings) = None" and "remote_failed (result remote)"
  shows "fst (getAiFilteredHotspots remote mood cravings p xs s)
           = Hotspots (hotspotFallback mood cravings xs)"
proof -
  from assms(2) obtain e where "try_fetch (result remote) = Inl e"
    using try_fetch_failed by blast
  with assms(1) show ?thesis
    by (simp add: getAiFilteredHotspots_def hotspotsSettled_def hotspotsKey_def Let_def)
qed

lemma hotspots_miss_parsed:
  assumes "cache s (hotspotsKey mood cravings) = None"
    and "ok st" and "result remote = Settled (Response st (Json fb its))"
  shows "fst (getAiFilteredHotspots remote mood cravings p xs s) = hotspots_or_empty its"
  using assms
  by (simp add: getAiFilteredHotspots_def hotspotsSettled_def hotspotsKey_def Let_def
      try_fetch_parsed)

lemma restaurants_miss_thrown:
  assumes "cache s (restaurantsKey mood cravings) = None"
    and "try_restaurants (result remote) = Inl e"
  shows "fst (getAiRankedRestaurants remote mood cravings p xs s)
           = Suggestions (restaurantFallback mood cravings xs)"
  using assms
  by (simp add: getAiRankedRestaurants_def restaurantsSettled_def restaurantsKey_def Let_def)

lemma restaurants_miss_failed:
  assumes "cache s (restaurantsKey mood cravings) = None" and "remote_failed (result remote)"
  shows "fst (getAiRankedRestaurants remote mood cravings p xs s)
           = Suggestions (restaurantFallback mood cravings xs)"
proof -
  from assms(2) obtain e where "try_restaurants (result remote) = Inl e"
    using try_restaurants_failed by blast
  with assms(1) show ?thesis by (rule restaurants_miss_thrown)
qed

lemma restaurants_miss_returned:
  assumes "cache s (restaurantsKey mood cravings) = None"
    and "try_restaurants (result remote) = Inr suggestions"
  shows "fst (getAiRankedRestaurants remote mood cravings p xs s) = Suggestions suggestions"
  using assms
  by (simp add: getAiRankedRestaurants_def restaurantsSettled_def restaurantsKey_def Let_def)

text \<open>A response is a failure, or a success whose body parses to something other than \<^verbatim>\<open>null\<close>.\<close>

lemma remote_outcomes:
  "remote_failed fr \<or> (\<exists>st fb its. ok st \<and> fr = Settled (Response st (Json fb its)))"
proof (cases "remote_failed fr")
  case True
  then show ?thesis by simp
next
  case False
  then obtain rsp fb its where "fr = Settled rsp" "ok (status rsp)" "body rsp = Json fb its"
    using try_fetch_not_failed by blast
  then show ?thesis by (cases rsp) auto
qed

lemma usable_items:
  "\<not> unusable its \<Longrightarrow> its = Missing \<or> (\<exists>entries. its = Array (map Some entries))"
proof (cases its)
  case (Array xs)
  assume "\<not> unusable its"
  with Array have "None \<notin> set xs" by (simp add: unusable_def)
  then have "xs = map Some (map the xs)" by (induction xs) auto
  with Array show ?thesis by blast
qed (simp_all add: unusable_def)

text \<open>
  A malformed answer of the generative model is a failure of the remote call when the
  call or the parse throws or no array is found: the endpoints answer it with status 500
  and the fallback flag.
\<close>

lemma backend_malformed_hotspots:
  "ai \<in> {AiThrows, NoArray, ParseThrows}
     \<Longrightarrow> remote_failed (Settled (filterHotspotsEndpoint ai mood cravings p hs))"
  by (auto simp: remote_failed_def filterHotspotsEndpoint_def fallback_500_def ok_def)

lemma backend_malformed_restaurants:
  "ai \<in> {AiThrows, NoArray, ParseThrows}
     \<Longrightarrow> remote_failed (Settled (rankRestaurantsEndpoint ai mood cravings p rs))"
  by (auto simp: remote_failed_def rankRestaurantsEndpoint_def fallback_500_def ok_def)

text \<open>
  Claim C1, as amended. In a resolution that misses the cache the resolver returns the
  result of the local fallback scorer, and no error, exactly when its \<^verbatim>\<open>try\<close> block
  throws: the \<^verbatim>\<open>fetch\<close> rejects, the status is not a success status (with or without the
  fallback flag), the body of a success response does not parse or parses to \<^verbatim>\<open>null\<close>,
  or, in the restaurant resolver, the list is not an array or has a \<^verbatim>\<open>null\<close> entry. On
  every other response, which is a success whose body parses, it does not fall back: a
  missing list gives the empty result, the hotspot resolver returns the list it finds
  (a value that is not an array included), and the restaurant resolver returns the
  suggestions made from the entries. The last two conjuncts say that these cases are
  all the cases.
\<close>

theorem resolver_falls_back:
  assumes "cache s (hotspotsKey mood cravings) = None"
    and "cache s (restaurantsKey mood cravings) = None"
  shows "(remote_failed (result hremote) \<longrightarrow>
            fst (getAiFilteredHotspots hremote mood cravings p allHotspots s)
              = Hotspots (hotspotFallback mood cravings allHotspots))
       \<and> (ok hst \<and> result hremote = Settled (Response hst (Json hfb hits)) \<longrightarrow>
            fst (getAiFilteredHotspots hremote mood cravings p allHotspots s)
              = (case hits of
                   Missing \<Rightarrow> Hotspots []
                 | NotArray \<Rightarrow> NotAList
                 | Array xs \<Rightarrow> Hotspots xs))
       \<and> (remote_failed (result rremote)
            \<or> (\<exists>st fb its. ok st \<and> result rremote = Settled (Response st (Json fb its))
                  \<and> unusable its) \<longrightarrow>
            fst (getAiRankedRestaurants rremote mood cravings p allRestaurants s)
              = Suggestions (restaurantFallback mood cravings allRestaurants))
       \<and> (ok rst \<and> result rremote = Settled (Response rst (Json rfb Missing)) \<longrightarrow>
            fst (getAiRankedRestaurants rremote mood cravings p allRestaurants s)
              = Suggestions [])
       \<and> (ok rst \<and> result rremote = Settled (Response rst (Json rfb (Array (map Some entries))))
            \<longrightarrow>
            fst (getAiRankedRestaurants rremote mood cravings p allRestaurants s)
              = Suggestions (map toAiSuggestion entries))
       \<and> (remote_failed (result hremote)
            \<or> (\<exists>st fb its. ok st \<and> result hremote = Settled (Response st (Json fb its))))
       \<and> (remote_failed (result rremote)
            \<or> (\<exists>st fb its. ok st \<and> result rremote = Settled (Response st (Json fb its))
                  \<and> (unusable its \<or> its = Missing
                       \<or> (\<exists>entries. its = Array (map Some entries)))))"
proof (intro conjI impI)
  assume "remote_failed (result hremote)"
  with assms(1) show "fst (getAiFilteredHotspots hremote mood cravings p allHotspots s)
                        = Hotspots (hotspotFallback mood cravings allHotspots)"
    by (rule hotspots_miss_failed)
next
  assume "ok hst \<and> result hremote = Settled (Response hst (Json hfb hits))"
  with hotspots_miss_parsed [OF assms(1), of hst hremote hfb hits]
  show "fst (getAiFilteredHotspots hremote mood cravings p allHotspots s)
          = (case hits of Missing \<Rightarrow> Hotspots [] | NotArray \<Rightarrow> NotAList | Array xs \<Rightarrow> Hotspots xs)"
    by (simp add: hotspots_or_empty_def)
next
  assume "remote_failed (result rremote)
            \<or> (\<exists>st fb its. ok st \<and> result rremote = Settled (Response st (Json fb its))
                  \<and> unusable its)"
  then obtain e where "try_restaurants (result rremote) = Inl e"
    using try_restaurants_failed try_restaurants_unusable by metis
  with assms(2) show "fst (getAiRankedRestaurants rremote mood cravings p allRestaurants s)
                        = Suggestions (restaurantFallback mood cravings allRestaurants)"
    by (rule restaurants_miss_thrown)
next
  assume "ok rst \<and> result rremote = Settled (Response rst (Json rfb Missing))"
  then have "try_restaurants (result rremote) = Inr []"
    by (simp add: try_restaurants_def try_fetch_parsed)
  with assms(2) show "fst (getAiRankedRestaurants rremote mood cravings p allRestaurants s)
                        = Suggestions []"
    by (rule restaurants_miss_returned)
next
  assume "ok rst \<and> result rremote = Settled (Response rst (Json rfb (Array (map Some entries))))"
  then have "try_restaurants (result rremote) = Inr (map toAiSuggestion entries)"
    by (simp add: try_restaurants_def try_fetch_parsed)
  with assms(2) show "fst (getAiRankedRestaurants rremote mood cravings p allRestaurants s)
                        = Suggestions (map toAiSuggestion entries)"
    by (rule restaurants_miss_returned)
next
  show "remote_failed (result hremote)
          \<or> (\<exists>st fb its. ok st \<and> result hremote = Settled (Response st (Json fb its)))"
    by (rule remote_outcomes)
next
  show "remote_failed (result rremote)
          \<or> (\<exists>st fb its. ok st \<and> result rremote = Settled (Response st (Json fb its))
                \<and> (unusable its \<or> its = Missing
                     \<or> (\<exists>entries. its = Array (map Some entries))))"
    using remote_outcomes [of "result rremote"] usable_items by blast
qed

theorem resolver_falls_back_witness:
  "cache init (hotspotsKey ''happy'' ''pizza'') = None
   \<and> cache init (restaurantsKey ''happy'' ''pizza'') = None
   \<and> remote_failed (result \<lparr>latency = 250,
         result = Settled (Response 500 (Json True (Missing :: hotspot items)))\<rparr>)
   \<and> remote_failed (result \<lparr>latency = 250,
         result = Settled (Response 200 (JsonNull :: ranked_entry option body))\<rparr>)
   \<and> fst (getAiFilteredHotspots
            \<lparr>latency = 250, result = Settled (Response 500 (Json True Missing))\<rparr>
            ''happy'' ''pizza'' None
            [\<lparr>h_id = 6, h_name = ''DUMBO'', h_address = ''Brooklyn'',
              review_count = 9100, h_tags = Some [''pizza'', ''views'']\<rparr>] init)
       = Hotspots (hotspotFallback ''happy'' ''pizza''
            [\<lparr>h_id = 6, h_name = ''DUMBO'', h_address = ''Brooklyn'',
              review_count = 9100, h_tags = Some [''pizza'', ''views'']\<rparr>])
   \<and> fst (getAiRankedRestaurants
            \<lparr>latency = 250, result = Settled (Response 200 JsonNull)\<rparr>
            ''happy'' ''pizza'' None
            [\<lparr>placeId = ''p1'', r_name = ''Pronto'', r_address = ''789 Atlantic Ave'',
              r_tags = Some [''pizza''], cuisine = ''Pizza''\<rparr>] init)
       = Suggestions (restaurantFallback ''happy'' ''pizza''
            [\<lparr>placeId = ''p1'', r_name = ''Pronto'', r_address = ''789 Atlantic Ave'',
              r_tags = Some [''pizza''], cuisine = ''Pizza''\<rparr>])"
proof -
  have mh: "cache init (hotspotsKey ''happy'' ''pizza'') = None"
    and mr: "cache init (restaurantsKey ''happy'' ''pizza'') = None"
    by (simp_all add: init_def)
  have fh: "remote_failed (result \<lparr>latency = 250,
              result = Settled (Response 500 (Json True (Missing :: hotspot items)))\<rparr>)"
    and fr: "remote_failed (result \<lparr>latency = 250,
              result = Settled (Response 200 (JsonNull :: ranked_entry option body))\<rparr>)"
    by (simp_all add: remote_failed_def ok_def)
  note th = resolver_falls_back [OF mh mr,
      where hremote = "\<lparr>latency = 250, result = Settled (Response 500 (Json True Missing))\<rparr>"
        and rremote = "\<lparr>latency = 250, result = Settled (Response 200 JsonNull)\<rparr>"
        and p = None
        and allHotspots = "[\<lparr>h_id = 6, h_name = ''DUMBO'', h_address = ''Brooklyn'',
              review_count = 9100, h_tags = Some [''pizza'', ''views'']\<rparr>]"
        and allRestaurants = "[\<lparr>placeId = ''p1'', r_name = ''Pronto'',
              r_address = ''789 Atlantic Ave'', r_tags = Some [''pizza''], cuisine = ''Pizza''\<rparr>]"]
  have a: "fst (getAiFilteredHotspots
            \<lparr>latency = 250, result = Settled (Response 500 (Json True Missing))\<rparr>
            ''happy'' ''pizza'' None
            [\<lparr>h_id = 6, h_name = ''DUMBO'', h_address = ''Brooklyn'',
              review_count = 9100, h_tags = Some [''pizza'', ''views'']\<rparr>] init)
       = Hotspots (hotspotFallback ''happy'' ''pizza''
            [\<lparr>h_id = 6, h_name = ''DUMBO'', h_address = ''Brooklyn'',
              review_count = 9100, h_tags = Some [''pizza'', ''views'']\<rparr>])"
    by (rule th [THEN conjunct1, THEN mp]) (rule fh)
  have b: "fst (getAiRankedRestaurants
            \<lparr>latency = 250, result = Settled (Response 200 JsonNull)\<rparr>
            ''happy'' ''pizza'' None
            [\<lparr>placeId = ''p1'', r_name = ''Pronto'', r_address = ''789 Atlantic Ave'',
              r_tags = Some [''pizza''], cuisine = ''Pizza''\<rparr>] init)
       = Suggestions (restaurantFallback ''happy'' ''pizza''
            [\<lparr>placeId = ''p1'', r_name = ''Pronto'', r_address = ''789 Atlantic Ave'',
              r_tags = Some [''pizza''], cuisine = ''Pizza''\<rparr>])"
    by (rule th [THEN conjunct2, THEN conjunct2, THEN conjunct1, THEN mp]) (rule disjI1 [OF fr])
  from mh mr fh fr a b show ?thesis
    by (intro conjI)
qed

text \<open>
  Claim C1 as stated fails for a malformed payload that parses. When the generative
  model ranks index 0.5, the backend of this repository lets the index pass its range
  test, finds no restaurant at it and answers 200 with an entry that holds the reasoning
  alone: the resolver returns a suggestion without identifier. On a success response
  whose body lacks the list it returns the empty result. In both cases the fallback
  scorer, which would return the matching candidate, is not invoked.
\<close>

theorem resolver_falls_back_counterexample:
  "rankRestaurantsEndpoint
       (Parsed [\<lparr>index = Some (1 / 2), rk_reasoning = Some ''Pronto is great''\<rparr>])
       ''happy'' ''pizza'' (Some \<lparr>p_name = ''Ana'', p_age = 30, p_location = ''Brooklyn''\<rparr>)
       [\<lparr>placeId = ''p1'', r_name = ''Pronto'', r_address = ''789 Atlantic Ave'',
            r_tags = Some [''pizza''], cuisine = ''Pizza''\<rparr>]
     = Response 200
         (Json False (Array [Some \<lparr>entity = None, aiReasoning = Some ''Pronto is great''\<rparr>]))
   \<and> fst (getAiRankedRestaurants
          \<lparr>latency = 250,
            result = Settled (Response 200
              (Json False
                 (Array [Some \<lparr>entity = None, aiReasoning = Some ''Pronto is great''\<rparr>])))\<rparr>
          ''happy'' ''pizza'' (Some \<lparr>p_name = ''Ana'', p_age = 30, p_location = ''Brooklyn''\<rparr>)
          [\<lparr>placeId = ''p1'', r_name = ''Pronto'', r_address = ''789 Atlantic Ave'',
            r_tags = Some [''pizza''], cuisine = ''Pizza''\<rparr>] init)
     = Suggestions [\<lparr>sugg_placeId = None, reasoning = ''Pronto is great''\<rparr>]
   \<and> fst (getAiRankedRestaurants
          \<lparr>latency = 250, result = Settled (Response 200 (Json False Missing))\<rparr>
          ''happy'' ''pizza'' (Some \<lparr>p_name = ''Ana'', p_age = 30, p_location = ''Brooklyn''\<rparr>)
          [\<lparr>placeId = ''p1'', r_name = ''Pronto'', r_address = ''789 Atlantic Ave'',
            r_tags = Some [''pizza''], cuisine = ''Pizza''\<rparr>] init)
     = Suggestions []
   \<and> restaurantFallback ''happy'' ''pizza''
          [\<lparr>placeId = ''p1'', r_name = ''Pronto'', r_address = ''789 Atlantic Ave'',
            r_tags = Some [''pizza''], cuisine = ''Pizza''\<rparr>]
     = [\<lparr>sugg_placeId = Some ''p1'', reasoning = ''Pronto - serves pizza''\<rparr>]"
proof -
  have half: "\<lfloor>1 / 2 :: rat\<rfloor> = 0"
    by (simp add: floor_eq_iff)
  show ?thesis
  proof (intro conjI)
    show "restaurantFallback ''happy'' ''pizza''
            [\<lparr>placeId = ''p1'', r_name = ''Pronto'', r_address = ''789 Atlantic Ave'',
              r_tags = Some [''pizza''], cuisine = ''Pizza''\<rparr>]
       = [\<lparr>sugg_placeId = Some ''p1'', reasoning = ''Pronto - serves pizza''\<rparr>]"
      by code_simp
  qed (simp_all add: getAiRankedRestaurants_def restaurantsSettled_def try_restaurants_def
        init_def try_fetch_def ok_def Let_def rankRestaurantsEndpoint_def in_range_def
        at_index_def toAiSuggestion_def half)
qed

subsection \<open>Empty candidate lists\<close>

lemma requests_elapse [simp]: "requests (elapse d s) = requests s"
  by (simp add: elapse_def Let_def)

lemma requests_cache_set [simp]: "requests (cache_set k v s) = requests s"
  by (simp add: cache_set_def)

lemma requests_setTimeout_delete [simp]: "requests (setTimeout_delete k ms s) = requests s"
  by (simp add: setTimeout_delete_def)

lemma hotspotFallback_Nil [simp]: "hotspotFallback mood cravings [] = []"
  by (simp add: hotspotFallback_def js_sort_def Let_def)

lemma restaurantFallback_Nil [simp]: "restaurantFallback mood cravings [] = []"
  by (simp add: restaurantFallback_def scoredRestaurants_def js_sort_def Let_def)

lemma filterHotspotsEndpoint_Nil:
  "filterHotspotsEndpoint ai mood cravings p [] = Response 400 (Json False Missing)"
  by (simp add: filterHotspotsEndpoint_def)

lemma rankRestaurantsEndpoint_Nil:
  "rankRestaurantsEndpoint ai mood cravings p [] = Response 400 (Json False Missing)"
  by (simp add: rankRestaurantsEndpoint_def)

lemma hotspots_miss_requests:
  "cache s (hotspotsKey mood cravings) = None \<Longrightarrow>
   requests (snd (getAiFilteredHotspots remote mood cravings p xs s))
     = requests s @ [FilterHotspots mood cravings p xs]"
  by (simp add: getAiFilteredHotspots_def hotspotsSettled_def hotspotsKey_def Let_def
      split: sum.splits)

lemma restaurants_miss_requests:
  "cache s (restaurantsKey mood cravings) = None \<Longrightarrow>
   requests (snd (getAiRankedRestaurants remote mood cravings p xs s))
     = requests s @ [RankRestaurants mood cravings p xs]"
  by (simp add: getAiRankedRestaurants_def restaurantsSettled_def restaurantsKey_def Let_def
      split: sum.splits)

text \<open>
  Claim C6, as amended. A resolver call with an empty candidate list that misses the
  cache does issue the remote request. The backend of this repository answers it with
  status 400, whatever the generative model would say, and the resolver returns the
  empty list through its fallback.
\<close>

theorem empty_candidates:
  assumes "cache s (hotspotsKey mood cravings) = None"
    and "cache s (restaurantsKey mood cravings) = None"
  shows "fst (getAiFilteredHotspots
                \<lparr>latency = d, result = Settled (filterHotspotsEndpoint hai mood cravings p [])\<rparr>
                mood cravings p [] s) = Hotspots []
       \<and> requests (snd (getAiFilteredHotspots
                \<lparr>latency = d, result = Settled (filterHotspotsEndpoint hai mood cravings p [])\<rparr>
                mood cravings p [] s))
           = requests s @ [FilterHotspots mood cravings p []]
       \<and> fst (getAiRankedRestaurants
                \<lparr>latency = d, result = Settled (rankRestaurantsEndpoint rai mood cravings p [])\<rparr>
                mood cravings p [] s) = Suggestions []
       \<and> requests (snd (getAiRankedRestaurants
                \<lparr>latency = d, result = Settled (rankRestaurantsEndpoint rai mood cravings p [])\<rparr>
                mood cravings p [] s))
           = requests s @ [RankRestaurants mood cravings p []]"
proof (intro conjI)
  have fh: "remote_failed (result \<lparr>latency = d,
              result = Settled (filterHotspotsEndpoint hai mood cravings p [])\<rparr>)"
    by (simp add: filterHotspotsEndpoint_Nil remote_failed_def ok_def)
  have fr: "remote_failed (result \<lparr>latency = d,
              result = Settled (rankRestaurantsEndpoint rai mood cravings p [])\<rparr>)"
    by (simp add: rankRestaurantsEndpoint_Nil remote_failed_def ok_def)
  show "fst (getAiFilteredHotspots
                \<lparr>latency = d, result = Settled (filterHotspotsEndpoint hai mood cravings p [])\<rparr>
                mood cravings p [] s) = Hotspots []"
    using hotspots_miss_failed [OF assms(1) fh] by simp
  show "fst (getAiRankedRestaurants
                \<lparr>latency = d, result = Settled (rankRestaurantsEndpoint rai mood cravings p [])\<rparr>
                mood cravings p [] s) = Suggestions []"
    using restaurants_miss_failed [OF assms(2) fr] by simp
  show "requests (snd (getAiFilteredHotspots
                \<lparr>latency = d, result = Settled (filterHotspotsEndpoint hai mood cravings p [])\<rparr>
                mood cravings p [] s))
           = requests s @ [FilterHotspots mood cravings p []]"
    by (rule hotspots_miss_requests [OF assms(1)])
  show "requests (snd (getAiRankedRestaurants
                \<lparr>latency = d, result = Settled (rankRestaurantsEndpoint rai mood cravings p [])\<rparr>
                mood cravings p [] s))
           = requests s @ [RankRestaurants mood cravings p []]"
    by (rule restaurants_miss_requests [OF assms(2)])
qed

theorem empty_candidates_witness:
  "cache init (hotspotsKey ''happy'' ''pizza'') = None
   \<and> cache init (restaurantsKey ''happy'' ''pizza'') = None
   \<and> fst (getAiFilteredHotspots
            \<lparr>latency = 250, result = Settled (filterHotspotsEndpoint (Parsed [0, 1]) ''happy''
               ''pizza'' (Some \<lparr>p_name = ''Ana'', p_age = 30, p_location = ''Brooklyn''\<rparr>) [])\<rparr>
            ''happy'' ''pizza'' (Some \<lparr>p_name = ''Ana'', p_age = 30, p_location = ''Brooklyn''\<rparr>)
            [] init) = Hotspots []
   \<and> requests (snd (getAiFilteredHotspots
            \<lparr>latency = 250, result = Settled (filterHotspotsEndpoint (Parsed [0, 1]) ''happy''
               ''pizza'' (Some \<lparr>p_name = ''Ana'', p_age = 30, p_location = ''Brooklyn''\<rparr>) [])\<rparr>
            ''happy'' ''pizza'' (Some \<lparr>p_name = ''Ana'', p_age = 30, p_location = ''Brooklyn''\<rparr>)
            [] init))
       = requests init @ [FilterHotspots ''happy'' ''pizza''
            (Some \<lparr>p_name = ''Ana'', p_age = 30, p_location = ''Brooklyn''\<rparr>) []]"
proof -
  have mh: "cache init (hotspotsKey ''happy'' ''pizza'') = None"
    and mr: "cache init (restaurantsKey ''happy'' ''pizza'') = None"
    by (simp_all add: init_def)
  note th = empty_candidates [OF mh mr, where d = 250 and hai = "Parsed [0, 1]"
      and p = "Some \<lparr>p_name = ''Ana'', p_age = 30, p_location = ''Brooklyn''\<rparr>"]
  from th have a: "fst (getAiFilteredHotspots
            \<lparr>latency = 250, result = Settled (filterHotspotsEndpoint (Parsed [0, 1]) ''happy''
               ''pizza'' (Some \<lparr>p_name = ''Ana'', p_age = 30, p_location = ''Brooklyn''\<rparr>) [])\<rparr>
            ''happy'' ''pizza'' (Some \<lparr>p_name = ''Ana'', p_age = 30, p_location = ''Brooklyn''\<rparr>)
            [] init) = Hotspots []"
    by (rule conjunct1)
  from th have b: "requests (snd (getAiFilteredHotspots
            \<lparr>latency = 250, result = Settled (filterHotspotsEndpoint (Parsed [0, 1]) ''happy''
               ''pizza'' (Some \<lparr>p_name = ''Ana'', p_age = 30, p_location = ''Brooklyn''\<rparr>) [])\<rparr>
            ''happy'' ''pizza'' (Some \<lparr>p_name = ''Ana'', p_age = 30, p_location = ''Brooklyn''\<rparr>)
            [] init))
       = requests init @ [FilterHotspots ''happy'' ''pizza''
            (Some \<lparr>p_name = ''Ana'', p_age = 30, p_location = ''Brooklyn''\<rparr>) []]"
    by (rule conjunct2 [THEN conjunct1])
  from mh mr a b show ?thesis
    by (intro conjI)
qed

text \<open>
  Claim C6 as stated fails: with an empty candidate list and an empty cache the hotspot
  resolver issues the remote request.
\<close>

theorem empty_candidates_counterexample:
  "requests (snd (getAiFilteredHotspots
      \<lparr>latency = 250, result = Settled (Response 400 (Json False Missing))\<rparr>
      ''happy'' ''pizza'' (Some \<lparr>p_name = ''Ana'', p_age = 30, p_location = ''Brooklyn''\<rparr>)
      [] init))
   = [FilterHotspots ''happy'' ''pizza''
        (Some \<lparr>p_name = ''Ana'', p_age = 30, p_location = ''Brooklyn''\<rparr>) []]"
  by (simp add: getAiFilteredHotspots_def hotspotsSettled_def init_def try_fetch_def ok_def
      Let_def)

subsection \<open>Reconciliation\<close>

lemma foldl_upd_map_of:
  "foldl (\<lambda>m r. m(k r \<mapsto> v r)) m0 xs = m0 ++ map_of (rev (map (\<lambda>r. (k r, v r)) xs))"
proof (induction xs arbitrary: m0)
  case Nil
  then show ?case by simp
next
  case (Cons x xs)
  have "foldl (\<lambda>m r. m(k r \<mapsto> v r)) m0 (x # xs)
          = m0(k x \<mapsto> v x) ++ map_of (rev (map (\<lambda>r. (k r, v r)) xs))"
    by (simp only: foldl_Cons) (rule Cons.IH)
  also have "\<dots> = m0 ++ map_of (rev (map (\<lambda>r. (k r, v r)) (x # xs)))"
    by (rule ext) (simp add: map_add_def split: option.splits)
  finally show ?case .
qed

lemma restaurantMap_map_of:
  "restaurantMap all = map_of (rev (map (\<lambda>r. (placeId r, r)) all))"
  unfolding restaurantMap_def by (simp add: foldl_upd_map_of)

lemma restaurantMap_Some:
  assumes "restaurantMap all p = Some r"
  shows "r \<in> set all \<and> placeId r = p"
proof -
  from assms have "(p, r) \<in> set (rev (map (\<lambda>r. (placeId r, r)) all))"
    unfolding restaurantMap_map_of by (rule map_of_SomeD)
  then show ?thesis by auto
qed

lemma restaurantMap_None: "restaurantMap all p = None \<longleftrightarrow> p \<notin> placeId ` set all"
  unfolding restaurantMap_map_of by (simp add: map_of_eq_None_iff image_image)

lemma set_map_filter: "set (List.map_filter f xs) = {y. \<exists>x \<in> set xs. f x = Some y}"
  by (induction xs) (auto split: option.splits)

lemma filteredRestaurants_subset:
  "set (filteredRestaurants suggestions allRestaurants) \<subseteq> set allRestaurants"
  by (auto simp: filteredRestaurants_def set_map_filter split: option.splits
      dest: restaurantMap_Some)

lemma map_placeId_filteredRestaurants:
  "map placeId (filteredRestaurants suggestions allRestaurants)
     = filter (\<lambda>p. p \<in> placeId ` set allRestaurants) (List.map_filter sugg_placeId suggestions)"
proof (induction suggestions)
  case Nil
  then show ?case by (simp add: filteredRestaurants_def)
next
  case (Cons x xs)
  show ?case
  proof (cases "sugg_placeId x")
    case None
    with Cons show ?thesis by (simp add: filteredRestaurants_def)
  next
    case (Some p)
    show ?thesis
    proof (cases "restaurantMap allRestaurants p")
      case None
      with Some Cons restaurantMap_None [of allRestaurants p] show ?thesis
        by (simp add: filteredRestaurants_def)
    next
      case (Some r)
      with \<open>sugg_placeId x = Some p\<close> Cons restaurantMap_Some [of allRestaurants p r]
      show ?thesis
        by (auto simp: filteredRestaurants_def)
    qed
  qed
qed

lemma filterHotspots_items:
  assumes "filterHotspotsEndpoint ai mood cravings p hs = Response st (Json fb its)"
    and "ok st"
  shows "\<exists>xs. its = Array xs \<and> set xs \<subseteq> set hs"
  using assms
  by (auto simp: filterHotspotsEndpoint_def fallback_500_def ok_def
      split: if_splits ai_answer.splits)

lemma at_index_mem: "at_index xs i = Some x \<Longrightarrow> x \<in> set xs"
  by (auto simp: at_index_def split: option.splits if_splits intro!: nth_mem)

lemma rankRestaurants_entities:
  assumes "rankRestaurantsEndpoint ai mood cravings p rs = Response st (Json fb (Array es))"
    and "Some x \<in> set es" and "entity x = Some r"
  shows "r \<in> set rs"
proof -
  from assms(1) obtain rankings :: "ranking list" where
    "es = map (\<lambda>k. Some \<lparr>entity = at_index rs (index k), aiReasoning = rk_reasoning k\<rparr>)
            (filter (in_range rs) rankings)"
    by (auto simp: rankRestaurantsEndpoint_def fallback_500_def
        split: if_splits ai_answer.splits)
  with assms(2) obtain k :: ranking where "entity x = at_index rs (index k)" by auto
  with assms(3) show ?thesis by (auto dest: at_index_mem)
qed

lemma set_hotspotFallback: "set (hotspotFallback mood cravings xs) = set xs"
  using mset_hotspotFallback [of mood cravings xs] by (rule mset_eq_setD)

lemma hotspotFallback_single [simp]: "hotspotFallback mood cravings [h] = [h]"
  by (simp add: hotspotFallback_def js_sort_def Let_def)

lemma hotspots_backend_subset:
  assumes miss: "cache s (hotspotsKey mood cravings) = None"
    and remote: "result remote = Rejected
       \<or> result remote = Settled (filterHotspotsEndpoint ai mood cravings p allHotspots)"
  shows "\<exists>res. fst (getAiFilteredHotspots remote mood cravings p allHotspots s) = Hotspots res
           \<and> set res \<subseteq> set allHotspots"
proof (cases "remote_failed (result remote)")
  case True
  from hotspots_miss_failed [OF miss True] set_hotspotFallback show ?thesis
    by fastforce
next
  case False
  then obtain rsp fb its where rsp: "result remote = Settled rsp" "ok (status rsp)"
      "body rsp = Json fb its"
    using try_fetch_not_failed by blast
  then have shape: "result remote = Settled (Response (status rsp) (Json fb its))"
    by (cases rsp) simp
  from hotspots_miss_parsed [OF miss rsp(2) shape]
  have res: "fst (getAiFilteredHotspots remote mood cravings p allHotspots s)
      = hotspots_or_empty its" .
  from remote shape have "filterHotspotsEndpoint ai mood cravings p allHotspots
      = Response (status rsp) (Json fb its)"
    by simp
  from filterHotspots_items [OF this rsp(2)] obtain xs where
    "its = Array xs" "set xs \<subseteq> set allHotspots"
    by blast
  with res show ?thesis by (simp add: hotspots_or_empty_def)
qed

lemma hotspots_hit:
  "cache s (hotspotsKey mood cravings) = Some v
     \<Longrightarrow> fst (getAiFilteredHotspots remote mood cravings p xs s) = v"
  by (simp add: getAiFilteredHotspots_def hotspotsKey_def)

text \<open>
  Claim C5, as amended. Whatever suggestions the restaurant resolver returned (AI path,
  fallback path or cache), every restaurant that reconciliation hands to the caller is an
  element of the canonical list. A hotspot resolution that misses the cache and talks to
  the backend of this repository (or whose \<^verbatim>\<open>fetch\<close> rejects) returns elements of the
  canonical list only; on a cache hit it returns the cached value as it is, whatever the
  list supplied. The entities the restaurant endpoint attaches to its rankings are
  elements of the list it was sent: an index out of range attaches none.
\<close>

theorem referential_integrity:
  "set (filteredRestaurants suggestions allRestaurants) \<subseteq> set allRestaurants
   \<and> (cache s (hotspotsKey mood cravings) = None
        \<and> (result remote = Rejected
             \<or> result remote = Settled (filterHotspotsEndpoint hai mood cravings p allHotspots))
      \<longrightarrow> (\<exists>res. fst (getAiFilteredHotspots remote mood cravings p allHotspots s) = Hotspots res
                 \<and> set res \<subseteq> set allHotspots))
   \<and> (cache s (hotspotsKey mood cravings) = Some v
      \<longrightarrow> fst (getAiFilteredHotspots remote mood cravings p allHotspots s) = v)
   \<and> (rankRestaurantsEndpoint rai mood cravings p allRestaurants
          = Response st (Json fb (Array entries))
      \<longrightarrow> (\<forall>x r. Some x \<in> set entries \<longrightarrow> entity x = Some r \<longrightarrow> r \<in> set allRestaurants))"
proof (intro conjI impI allI)
  show "set (filteredRestaurants suggestions allRestaurants) \<subseteq> set allRestaurants"
    by (rule filteredRestaurants_subset)
next
  assume "cache s (hotspotsKey mood cravings) = None
        \<and> (result remote = Rejected
             \<or> result remote = Settled (filterHotspotsEndpoint hai mood cravings p allHotspots))"
  then show "\<exists>res. fst (getAiFilteredHotspots remote mood cravings p allHotspots s) = Hotspots res
                 \<and> set res \<subseteq> set allHotspots"
    using hotspots_backend_subset [of s mood cravings remote hai p allHotspots] by blast
next
  assume "cache s (hotspotsKey mood cravings) = Some v"
  then show "fst (getAiFilteredHotspots remote mood cravings p allHotspots s) = v"
    by (rule hotspots_hit)
next
  fix x r
  assume "rankRestaurantsEndpoint rai mood cravings p allRestaurants
            = Response st (Json fb (Array entries))"
    and "Some x \<in> set entries" and "entity x = Some r"
  then show "r \<in> set allRestaurants"
    by (rule rankRestaurants_entities)
qed

theorem referential_integrity_witness:
  "cache init (hotspotsKey ''happy'' ''pizza'') = None
   \<and> (\<exists>res. fst (getAiFilteredHotspots
         \<lparr>latency = 250,
           result = Settled (filterHotspotsEndpoint (Parsed [0, 57]) ''happy'' ''pizza''
             (Some \<lparr>p_name = ''Ana'', p_age = 30, p_location = ''Brooklyn''\<rparr>)
             [\<lparr>h_id = 6, h_name = ''DUMBO'', h_address = ''Brooklyn'',
               review_count = 9100, h_tags = Some [''pizza'', ''views'']\<rparr>])\<rparr>
         ''happy'' ''pizza'' (Some \<lparr>p_name = ''Ana'', p_age = 30, p_location = ''Brooklyn''\<rparr>)
         [\<lparr>h_id = 6, h_name = ''DUMBO'', h_address = ''Brooklyn'',
           review_count = 9100, h_tags = Some [''pizza'', ''views'']\<rparr>] init) = Hotspots res
       \<and> set res \<subseteq> set [\<lparr>h_id = 6, h_name = ''DUMBO'', h_address = ''Brooklyn'',
                            review_count = 9100, h_tags = Some [''pizza'', ''views'']\<rparr>])
   \<and> rankRestaurantsEndpoint
         (Parsed [\<lparr>index = Some 0, rk_reasoning = Some ''best''\<rparr>,
                  \<lparr>index = Some 57, rk_reasoning = Some ''made up''\<rparr>])
         ''happy'' ''pizza'' (Some \<lparr>p_name = ''Ana'', p_age = 30, p_location = ''Brooklyn''\<rparr>)
         [\<lparr>placeId = ''p1'', r_name = ''Pronto'', r_address = ''789 Atlantic Ave'',
           r_tags = Some [''pizza''], cuisine = ''Pizza''\<rparr>]
       = Response 200 (Json False (Array
           [Some \<lparr>entity = Some \<lparr>placeId = ''p1'', r_name = ''Pronto'',
                           r_address = ''789 Atlantic Ave'', r_tags = Some [''pizza''],
                           cuisine = ''Pizza''\<rparr>,
                  aiReasoning = Some ''best''\<rparr>]))"
proof -
  have miss: "cache init (hotspotsKey ''happy'' ''pizza'') = None"
    by (simp add: init_def)
  note th = referential_integrity [where s = init and mood = "''happy''" and cravings = "''pizza''"
      and hai = "Parsed [0, 57]"
      and p = "Some \<lparr>p_name = ''Ana'', p_age = 30, p_location = ''Brooklyn''\<rparr>"
      and allHotspots = "[\<lparr>h_id = 6, h_name = ''DUMBO'', h_address = ''Brooklyn'',
               review_count = 9100, h_tags = Some [''pizza'', ''views'']\<rparr>]"
      and remote = "\<lparr>latency = 250,
           result = Settled (filterHotspotsEndpoint (Parsed [0, 57]) ''happy'' ''pizza''
             (Some \<lparr>p_name = ''Ana'', p_age = 30, p_location = ''Brooklyn''\<rparr>)
             [\<lparr>h_id = 6, h_name = ''DUMBO'', h_address = ''Brooklyn'',
               review_count = 9100, h_tags = Some [''pizza'', ''views'']\<rparr>])\<rparr>"]
  have a: "\<exists>res. fst (getAiFilteredHotspots
         \<lparr>latency = 250,
           result = Settled (filterHotspotsEndpoint (Parsed [0, 57]) ''happy'' ''pizza''
             (Some \<lparr>p_name = ''Ana'', p_age = 30, p_location = ''Brooklyn''\<rparr>)
             [\<lparr>h_id = 6, h_name = ''DUMBO'', h_address = ''Brooklyn'',
               review_count = 9100, h_tags = Some [''pizza'', ''views'']\<rparr>])\<rparr>
         ''happy'' ''pizza'' (Some \<lparr>p_name = ''Ana'', p_age = 30, p_location = ''Brooklyn''\<rparr>)
         [\<lparr>h_id = 6, h_name = ''DUMBO'', h_address = ''Brooklyn'',
           review_count = 9100, h_tags = Some [''pizza'', ''views'']\<rparr>] init) = Hotspots res
       \<and> set res \<subseteq> set [\<lparr>h_id = 6, h_name = ''DUMBO'', h_address = ''Brooklyn'',
                            review_count = 9100, h_tags = Some [''pizza'', ''views'']\<rparr>]"
    by (rule th [THEN conjunct2, THEN conjunct1, THEN mp]) (simp add: miss)
  have b: "rankRestaurantsEndpoint
         (Parsed [\<lparr>index = Some 0, rk_reasoning = Some ''best''\<rparr>,
                  \<lparr>index = Some 57, rk_reasoning = Some ''made up''\<rparr>])
         ''happy'' ''pizza'' (Some \<lparr>p_name = ''Ana'', p_age = 30, p_location = ''Brooklyn''\<rparr>)
         [\<lparr>placeId = ''p1'', r_name = ''Pronto'', r_address = ''789 Atlantic Ave'',
           r_tags = Some [''pizza''], cuisine = ''Pizza''\<rparr>]
       = Response 200 (Json False (Array
           [Some \<lparr>entity = Some \<lparr>placeId = ''p1'', r_name = ''Pronto'',
                           r_address = ''789 Atlantic Ave'', r_tags = Some [''pizza''],
                           cuisine = ''Pizza''\<rparr>,
                  aiReasoning = Some ''best''\<rparr>]))"
    by (simp add: rankRestaurantsEndpoint_def at_index_def in_range_def)
  from miss a b show ?thesis by (intro conjI)
qed

text \<open>
  Claim C5 as stated fails on a hotspot cache hit. The cache key ignores the candidate
  list, and a hit is returned unreconciled: after a resolution for the list that holds
  DUMBO, a resolution with the same mood and cravings for the list that holds Greenpoint
  returns DUMBO, which is not in the list supplied.
\<close>

theorem referential_integrity_counterexample:
  "fst (getAiFilteredHotspots \<lparr>latency = 250, result = Rejected\<rparr> ''happy'' ''pizza'' None
      [\<lparr>h_id = 3, h_name = ''Greenpoint'', h_address = ''Brooklyn'',
         review_count = 6100, h_tags = Some [''polish'', ''donuts'']\<rparr>]
      (snd (getAiFilteredHotspots \<lparr>latency = 250, result = Rejected\<rparr> ''happy'' ''pizza''
         None
         [\<lparr>h_id = 6, h_name = ''DUMBO'', h_address = ''Brooklyn'',
            review_count = 9100, h_tags = Some [''pizza'', ''views'']\<rparr>] init)))
     = Hotspots [\<lparr>h_id = 6, h_name = ''DUMBO'', h_address = ''Brooklyn'',
                   review_count = 9100, h_tags = Some [''pizza'', ''views'']\<rparr>]
   \<and> \<lparr>h_id = 6, h_name = ''DUMBO'', h_address = ''Brooklyn'',
        review_count = 9100, h_tags = Some [''pizza'', ''views'']\<rparr>
       \<notin> set [\<lparr>h_id = 3, h_name = ''Greenpoint'', h_address = ''Brooklyn'',
                  review_count = 6100, h_tags = Some [''polish'', ''donuts'']\<rparr>]"
  by (simp add: getAiFilteredHotspots_def hotspotsSettled_def init_def try_fetch_def Let_def
      elapse_def cache_set_def)

lemma distinct_filteredRestaurants:
  assumes "distinct (List.map_filter sugg_placeId suggestions)"
  shows "distinct (filteredRestaurants suggestions allRestaurants)"
proof -
  from assms have "distinct (map placeId (filteredRestaurants suggestions allRestaurants))"
    unfolding map_placeId_filteredRestaurants by (rule distinct_filter)
  then show ?thesis by (simp add: distinct_map)
qed

lemma aiReasoningMap_map_of:
  "aiReasoningMap suggestions
     = map_of (rev (map (\<lambda>r. (reasoningKey r, reasoning r)) suggestions))"
proof -
  have "aiReasoningMap suggestions
          = foldl (\<lambda>m r. m(reasoningKey r \<mapsto> reasoning r)) Map.empty suggestions"
    by (simp add: aiReasoningMap_def reasoningKey_def)
  then show ?thesis by (simp add: foldl_upd_map_of)
qed

text \<open>
  Claim C9, as amended. Reconciliation does not collapse duplicates: the restaurants
  handed to the caller are, in ranked order, one for every ranked identifier that occurs
  in the canonical list, so the output is free of duplicates when the ranked identifiers
  are distinct. Only the reasoning map collapses duplicate identifiers, and it keeps the
  reasoning of the last occurrence.
\<close>

theorem reconcile_duplicates:
  "map placeId (filteredRestaurants suggestions allRestaurants)
     = filter (\<lambda>p. p \<in> placeId ` set allRestaurants) (List.map_filter sugg_placeId suggestions)
   \<and> (distinct (List.map_filter sugg_placeId suggestions)
        \<longrightarrow> distinct (filteredRestaurants suggestions allRestaurants))
   \<and> aiReasoningMap suggestions
        = map_of (rev (map (\<lambda>r. (reasoningKey r, reasoning r)) suggestions))"
  using map_placeId_filteredRestaurants distinct_filteredRestaurants aiReasoningMap_map_of
  by (intro conjI impI)

theorem reconcile_duplicates_witness:
  "distinct (List.map_filter sugg_placeId
       [\<lparr>sugg_placeId = Some ''p2'', reasoning = ''first''\<rparr>,
        \<lparr>sugg_placeId = Some ''p1'', reasoning = ''second''\<rparr>])
   \<and> distinct (filteredRestaurants
       [\<lparr>sugg_placeId = Some ''p2'', reasoning = ''first''\<rparr>,
        \<lparr>sugg_placeId = Some ''p1'', reasoning = ''second''\<rparr>]
       [\<lparr>placeId = ''p1'', r_name = ''Pronto'', r_address = ''789 Atlantic Ave'',
         r_tags = Some [''pizza''], cuisine = ''Pizza''\<rparr>,
        \<lparr>placeId = ''p2'', r_name = ''Verdure'', r_address = ''321 Smith St'',
         r_tags = Some [''vegan''], cuisine = ''Vegan''\<rparr>])"
proof -
  have d: "distinct (List.map_filter sugg_placeId
       [\<lparr>sugg_placeId = Some ''p2'', reasoning = ''first''\<rparr>,
        \<lparr>sugg_placeId = Some ''p1'', reasoning = ''second''\<rparr>])"
    by simp
  from reconcile_duplicates [THEN conjunct2, THEN conjunct1, THEN mp, OF d] d
  show ?thesis by (intro conjI)
qed

text \<open>
  Claim C9 as stated fails: when the generative model ranks index 0 twice, the backend
  sends the restaurant twice, the resolver returns two suggestions for it and
  reconciliation hands the caller the same restaurant twice.
\<close>

theorem reconcile_duplicates_counterexample:
  "fst (getAiRankedRestaurants
      \<lparr>latency = 250,
        result = Settled (rankRestaurantsEndpoint
          (Parsed [\<lparr>index = Some 0, rk_reasoning = Some ''best''\<rparr>,
                   \<lparr>index = Some 0, rk_reasoning = Some ''again''\<rparr>])
          ''happy'' ''pizza'' (Some \<lparr>p_name = ''Ana'', p_age = 30, p_location = ''Brooklyn''\<rparr>)
          [\<lparr>placeId = ''p1'', r_name = ''Pronto'', r_address = ''789 Atlantic Ave'',
            r_tags = Some [''pizza''], cuisine = ''Pizza''\<rparr>])\<rparr>
      ''happy'' ''pizza'' (Some \<lparr>p_name = ''Ana'', p_age = 30, p_location = ''Brooklyn''\<rparr>)
      [\<lparr>placeId = ''p1'', r_name = ''Pronto'', r_address = ''789 Atlantic Ave'',
        r_tags = Some [''pizza''], cuisine = ''Pizza''\<rparr>] init)
     = Suggestions [\<lparr>sugg_placeId = Some ''p1'', reasoning = ''best''\<rparr>,
                    \<lparr>sugg_placeId = Some ''p1'', reasoning = ''again''\<rparr>]
   \<and> filteredRestaurants
        [\<lparr>sugg_placeId = Some ''p1'', reasoning = ''best''\<rparr>,
         \<lparr>sugg_placeId = Some ''p1'', reasoning = ''again''\<rparr>]
        [\<lparr>placeId = ''p1'', r_name = ''Pronto'', r_address = ''789 Atlantic Ave'',
          r_tags = Some [''pizza''], cuisine = ''Pizza''\<rparr>]
     = [\<lparr>placeId = ''p1'', r_name = ''Pronto'', r_address = ''789 Atlantic Ave'',
          r_tags = Some [''pizza''], cuisine = ''Pizza''\<rparr>,
        \<lparr>placeId = ''p1'', r_name = ''Pronto'', r_address = ''789 Atlantic Ave'',
          r_tags = Some [''pizza''], cuisine = ''Pizza''\<rparr>]"
  by (simp add: getAiRankedRestaurants_def restaurantsSettled_def try_restaurants_def init_def
      try_fetch_def ok_def Let_def rankRestaurantsEndpoint_def in_range_def at_index_def
      toAiSuggestion_def filteredRestaurants_def restaurantMap_def)

subsection \<open>The cache over time\<close>

lemma now_elapse [simp]: "now (elapse d s) = now s + d"
  by (simp add: elapse_def Let_def)

lemma timers_elapse: "timers (elapse d s) = filter (\<lambda>e. \<not> fst e \<le> now s + d) (timers s)"
  by (simp add: elapse_def Let_def)

lemma foldl_delete:
  "foldl (\<lambda>m e. m(snd e := None)) m es k = (if k \<in> snd ` set es then None else m k)"
  by (induction es arbitrary: m) auto

lemma cache_elapse:
  "cache (elapse d s) k
     = (if \<exists>e \<in> set (timers s). fst e \<le> now s + d \<and> snd e = k then None else cache s k)"
  by (auto simp: elapse_def Let_def foldl_delete)

lemma elapse_requests_upd:
  "elapse d (s\<lparr>requests := r\<rparr>) = (elapse d s)\<lparr>requests := r\<rparr>"
  by (simp add: elapse_def Let_def)

lemma timers_ok_elapse:
  assumes "timers_ok s"
  shows "timers_ok (elapse d s)"
proof -
  from assms have dist: "distinct (map snd (timers s))"
    and cached: "\<And>e. e \<in> set (timers s) \<Longrightarrow> cache s (snd e) \<noteq> None"
    by (auto simp: timers_ok_def)
  have "distinct (map snd (timers (elapse d s)))"
    unfolding timers_elapse using dist by (rule distinct_map_filter)
  moreover have "cache (elapse d s) (snd e) \<noteq> None" if "e \<in> set (timers (elapse d s))" for e
  proof -
    from that have e: "e \<in> set (timers s)" "\<not> fst e \<le> now s + d"
      by (auto simp: timers_elapse)
    have "e' = e" if "e' \<in> set (timers s)" "snd e' = snd e" for e'
      using dist that e(1) by (meson distinct_map inj_onD)
    with e have "\<not> (\<exists>e' \<in> set (timers s). fst e' \<le> now s + d \<and> snd e' = snd e)"
      by blast
    with cached [OF e(1)] show ?thesis by (simp add: cache_elapse)
  qed
  ultimately show ?thesis by (simp add: timers_ok_def)
qed

lemma elapse_keeps_None: "cache s k = None \<Longrightarrow> cache (elapse d s) k = None"
  by (simp add: cache_elapse)

lemma no_timer_when_missing:
  "timers_ok s \<Longrightarrow> cache s k = None \<Longrightarrow> e \<in> set (timers s) \<Longrightarrow> snd e \<noteq> k"
  by (auto simp: timers_ok_def)

lemma holds_until_elapse:
  assumes "holds_until k v T s" and "now s + d < T"
  shows "holds_until k v T (elapse d s)"
  using assms by (auto simp: holds_until_def cache_elapse timers_elapse)

text \<open>What the second half of a call does to the clock, the cache and the timers.\<close>

lemma afterFetch_effect:
  "\<exists>tm. now (snd (afterFetch c s)) = now s
        \<and> cache (snd (afterFetch c s)) = (cache s)(key_of c \<mapsto> fst (afterFetch c s))
        \<and> timers (snd (afterFetch c s)) = timers s @ tm
        \<and> (call_failed c \<longrightarrow> tm = [])
        \<and> (\<not> call_failed c \<longrightarrow> tm = [(now s + 300000, key_of c)])"
proof (cases c)
  case (HotspotCall remote mood cravings p xs)
  show ?thesis
  proof (cases "try_fetch (result remote)")
    case (Inl e)
    with HotspotCall show ?thesis
      by (intro exI [of _ "[]"])
        (simp add: hotspotsSettled_def hotspotsKey_def Let_def cache_set_def)
  next
    case (Inr its)
    with HotspotCall show ?thesis
      by (intro exI [of _ "[(now s + 300000, hotspotsKey mood cravings)]"])
        (simp add: hotspotsSettled_def hotspotsKey_def Let_def cache_set_def
          setTimeout_delete_def)
  qed
next
  case (RestaurantCall remote mood cravings p xs)
  show ?thesis
  proof (cases "try_restaurants (result remote)")
    case (Inl e)
    with RestaurantCall show ?thesis
      by (intro exI [of _ "[]"])
        (simp add: restaurantsSettled_def restaurantsKey_def Let_def cache_set_def)
  next
    case (Inr suggestions)
    with RestaurantCall show ?thesis
      by (intro exI [of _ "[(now s + 300000, restaurantsKey mood cravings)]"])
        (simp add: restaurantsSettled_def restaurantsKey_def Let_def cache_set_def
          setTimeout_delete_def)
  qed
qed

text \<open>
  A call that nothing interrupts is its first half, the wait for the \<^verbatim>\<open>fetch\<close> and its
  second half.
\<close>

lemma resolve_hit: "cache s (key_of c) = Some v \<Longrightarrow> resolve c s = (v, s)"
  by (cases c)
    (simp_all add: getAiFilteredHotspots_def getAiRankedRestaurants_def hotspotsKey_def
      restaurantsKey_def)

lemma resolve_miss:
  "cache s (key_of c) = None \<Longrightarrow>
   resolve c s
     = afterFetch c (elapse (latency_of c) (s\<lparr>requests := requests s @ [request_of c]\<rparr>))"
  by (cases c)
    (simp_all add: getAiFilteredHotspots_def getAiRankedRestaurants_def hotspotsKey_def
      restaurantsKey_def)

lemma uninterrupted_call:
  assumes "cache s (key_of c) = None"
  shows "run \<lparr>shared = s, inflight = []\<rparr> [Begin c, Wait (latency_of c), Settle 0]
           = \<lparr>shared = snd (resolve c s), inflight = []\<rparr>"
  using assms by (simp add: run_def beginCall_def settleCall_def resolve_miss)

lemma beginCall_hit:
  "cache (shared ss) (key_of c) = Some v \<Longrightarrow> beginCall c ss = (Some v, ss)"
  by (simp add: beginCall_def)

text \<open>A history without overlap keeps the session calm.\<close>

lemma calm_idle: "calm idle"
  by (simp add: calm_def idle_def init_def timers_ok_def)

lemma calm_wait: "calm ss \<Longrightarrow> calm (step ss (Wait d))"
  by (simp add: calm_def timers_ok_elapse elapse_keeps_None)

lemma calm_begin:
  assumes "calm ss" and "admits ss (Begin c)"
  shows "calm (snd (beginCall c ss))"
proof (cases "cache (shared ss) (key_of c)")
  case (Some v)
  with assms(1) show ?thesis by (simp add: beginCall_def)
next
  case None
  with assms show ?thesis
    by (auto simp: beginCall_def calm_def timers_ok_def)
qed

lemma remove_nth_distinct:
  assumes "distinct (map f xs)" and "i < length xs"
  shows "distinct (map f (take i xs @ drop (Suc i) xs))"
    and "\<forall>y \<in> set (take i xs @ drop (Suc i) xs). f y \<noteq> f (xs ! i)"
proof -
  have "xs = take i xs @ xs ! i # drop (Suc i) xs"
    using assms(2) by (rule id_take_nth_drop)
  then have "map f xs = map f (take i xs) @ f (xs ! i) # map f (drop (Suc i) xs)"
    by (metis list.simps(9) map_append)
  with assms(1) have d: "distinct (map f (take i xs) @ f (xs ! i) # map f (drop (Suc i) xs))"
    by simp
  then show "distinct (map f (take i xs @ drop (Suc i) xs))"
    by auto
  from d have "f (xs ! i) \<notin> set (map f (take i xs))" "f (xs ! i) \<notin> set (map f (drop (Suc i) xs))"
    by auto
  then show "\<forall>y \<in> set (take i xs @ drop (Suc i) xs). f y \<noteq> f (xs ! i)"
    by (metis Un_iff imageI set_append set_map)
qed

lemma set_remove_nth: "set (take i xs @ drop (Suc i) xs) \<subseteq> set xs"
  using set_take_subset [of i xs] set_drop_subset [of "Suc i" xs] by auto

lemma calm_settle:
  assumes calm: "calm ss"
  shows "calm (settleCall i ss)"
proof (cases "i < length (inflight ss)")
  case False
  with calm show ?thesis by (simp add: settleCall_def)
next
  case True
  let ?c = "inflight ss ! i"
  let ?rest = "take i (inflight ss) @ drop (Suc i) (inflight ss)"
  let ?s = "shared ss"
  let ?s' = "snd (afterFetch ?c ?s)"
  from calm have dist: "distinct (map key_of (inflight ss))"
    and uncached: "\<And>c. c \<in> set (inflight ss) \<Longrightarrow> cache ?s (key_of c) = None"
    and tok: "timers_ok ?s"
    by (auto simp: calm_def)
  from True have mem: "?c \<in> set (inflight ss)" by simp
  from afterFetch_effect [of ?c ?s] obtain tm where
    c: "cache ?s' = (cache ?s)(key_of ?c \<mapsto> fst (afterFetch ?c ?s))"
    and t: "timers ?s' = timers ?s @ tm"
    and tm: "tm = [] \<or> tm = [(now ?s + 300000, key_of ?c)]"
    by (cases "call_failed ?c") auto
  have fresh: "\<forall>e \<in> set (timers ?s). snd e \<noteq> key_of ?c"
    by (auto dest: no_timer_when_missing [OF tok uncached [OF mem]])
  from tok have tdist: "distinct (map snd (timers ?s))"
    and cached: "\<And>e. e \<in> set (timers ?s) \<Longrightarrow> cache ?s (snd e) \<noteq> None"
    by (auto simp: timers_ok_def)
  have "distinct (map snd (timers ?s'))"
    using tm tdist fresh unfolding t by auto
  moreover have "cache ?s' (snd e) \<noteq> None" if "e \<in> set (timers ?s')" for e
  proof (cases "snd e = key_of ?c")
    case True
    then show ?thesis unfolding c by simp
  next
    case False
    with that tm have "e \<in> set (timers ?s)" unfolding t by auto
    from cached [OF this] False show ?thesis unfolding c by simp
  qed
  ultimately have tok': "timers_ok ?s'" by (simp add: timers_ok_def)
  have dist': "distinct (map key_of ?rest)"
    and other: "\<forall>c' \<in> set ?rest. key_of c' \<noteq> key_of ?c"
    using remove_nth_distinct [OF dist True] by simp_all
  have "cache ?s' (key_of c') = None" if "c' \<in> set ?rest" for c'
  proof -
    from that other have "key_of c' \<noteq> key_of ?c" by auto
    moreover from that set_remove_nth [of i "inflight ss"] have "c' \<in> set (inflight ss)"
      by auto
    ultimately show ?thesis unfolding c by (simp add: uncached)
  qed
  with tok' dist' True show ?thesis
    by (simp add: calm_def settleCall_def)
qed

lemma calm_step: "calm ss \<Longrightarrow> admits ss e \<Longrightarrow> calm (step ss e)"
proof (cases e)
  case (Wait d)
  assume "calm ss"
  with Wait show ?thesis by (simp only: calm_wait)
next
  case (Begin c)
  assume "calm ss" "admits ss e"
  with Begin show ?thesis by (simp add: calm_begin)
next
  case (Settle i)
  assume "calm ss"
  with Settle show ?thesis by (simp add: calm_settle)
qed

lemma calm_run: "calm ss \<Longrightarrow> no_overlap ss es \<Longrightarrow> calm (run ss es)"
  unfolding run_def by (induction es arbitrary: ss) (simp_all add: calm_step)

text \<open>The clock never goes back.\<close>

lemma now_step: "now (shared ss) \<le> now (shared (step ss e))"
proof (cases e)
  case (Settle i)
  from afterFetch_effect [of "inflight ss ! i" "shared ss"]
  have "now (snd (afterFetch (inflight ss ! i) (shared ss))) = now (shared ss)" by blast
  with Settle show ?thesis by (simp add: settleCall_def)
qed (simp_all add: beginCall_def split: option.splits)

lemma now_run: "now (shared ss) \<le> now (shared (run ss es))"
  unfolding run_def
proof (induction es arbitrary: ss)
  case Nil
  then show ?case by simp
next
  case (Cons e es)
  have "now (shared ss) \<le> now (shared (step ss e))" by (rule now_step)
  also have "\<dots> \<le> now (shared (foldl step (step ss e) es))" by (rule Cons.IH)
  finally show ?case by simp
qed

text \<open>An entry that nothing in flight will overwrite stays until its time.\<close>

lemma settled_until_step:
  assumes h: "settled_until k v T ss" and t: "now (shared (step ss e)) < T"
  shows "settled_until k v T (step ss e)"
proof (cases e)
  case (Wait d)
  with h t show ?thesis by (simp add: settled_until_def holds_until_elapse)
next
  case (Begin c)
  show ?thesis
  proof (cases "cache (shared ss) (key_of c)")
    case (Some w)
    with h Begin show ?thesis by (simp add: beginCall_def)
  next
    case None
    with h have "key_of c \<noteq> k" by (auto simp: settled_until_def holds_until_def)
    with h None Begin show ?thesis
      by (auto simp: beginCall_def settled_until_def holds_until_def)
  qed
next
  case (Settle i)
  show ?thesis
  proof (cases "i < length (inflight ss)")
    case False
    with h Settle show ?thesis by (simp add: settleCall_def)
  next
    case True
    let ?c = "inflight ss ! i"
    let ?s = "shared ss"
    let ?s' = "snd (afterFetch ?c ?s)"
    from True have mem: "?c \<in> set (inflight ss)" by simp
    with h have ne: "key_of ?c \<noteq> k" by (simp add: settled_until_def)
    from afterFetch_effect [of ?c ?s] obtain tm where
      c: "cache ?s' = (cache ?s)(key_of ?c \<mapsto> fst (afterFetch ?c ?s))"
      and tt: "timers ?s' = timers ?s @ tm"
      and tm: "tm = [] \<or> tm = [(now ?s + 300000, key_of ?c)]"
      by (cases "call_failed ?c") auto
    from h ne tm have "holds_until k v T ?s'"
      unfolding settled_until_def holds_until_def c tt by auto
    moreover from h set_remove_nth [of i "inflight ss"]
    have "\<forall>c' \<in> set (take i (inflight ss) @ drop (Suc i) (inflight ss)). key_of c' \<noteq> k"
      by (auto simp: settled_until_def)
    ultimately show ?thesis using Settle True
      by (simp add: settled_until_def settleCall_def)
  qed
qed

lemma settled_until_run:
  "settled_until k v T ss \<Longrightarrow> now (shared (run ss es)) < T \<Longrightarrow> settled_until k v T (run ss es)"
proof (induction es arbitrary: ss)
  case Nil
  then show ?case by (simp add: run_def)
next
  case (Cons e es)
  have r: "run ss (e # es) = run (step ss e) es" by (simp add: run_def)
  have "now (shared (step ss e)) \<le> now (shared (run (step ss e) es))" by (rule now_run)
  with Cons.prems(2) r have "now (shared (step ss e)) < T" by simp
  with Cons.prems(1) have "settled_until k v T (step ss e)" by (rule settled_until_step)
  with Cons.IH [of "step ss e"] Cons.prems(2) r show ?case by simp
qed

lemma settled_until_created:
  assumes calm: "calm ss" and i: "i < length (inflight ss)"
    and T: "call_failed (inflight ss ! i) \<or> T \<le> now (shared ss) + 300000"
  shows "settled_until (key_of (inflight ss ! i))
           (fst (afterFetch (inflight ss ! i) (shared ss))) T (settleCall i ss)"
proof -
  let ?c = "inflight ss ! i"
  let ?s = "shared ss"
  let ?s' = "snd (afterFetch ?c ?s)"
  from calm have dist: "distinct (map key_of (inflight ss))"
    and uncached: "\<And>c. c \<in> set (inflight ss) \<Longrightarrow> cache ?s (key_of c) = None"
    and tok: "timers_ok ?s"
    by (auto simp: calm_def)
  from i have mem: "?c \<in> set (inflight ss)" by simp
  from afterFetch_effect [of ?c ?s] obtain tm where
    c: "cache ?s' = (cache ?s)(key_of ?c \<mapsto> fst (afterFetch ?c ?s))"
    and tt: "timers ?s' = timers ?s @ tm"
    and tm: "call_failed ?c \<longrightarrow> tm = []"
      "\<not> call_failed ?c \<longrightarrow> tm = [(now ?s + 300000, key_of ?c)]"
    by blast
  have fresh: "\<forall>e \<in> set (timers ?s). snd e \<noteq> key_of ?c"
    by (auto dest: no_timer_when_missing [OF tok uncached [OF mem]])
  from tm T fresh have "holds_until (key_of ?c) (fst (afterFetch ?c ?s)) T ?s'"
    unfolding holds_until_def c tt by (cases "call_failed ?c") auto
  moreover have "\<forall>c' \<in> set (take i (inflight ss) @ drop (Suc i) (inflight ss)).
      key_of c' \<noteq> key_of ?c"
    using remove_nth_distinct(2) [OF dist i] by auto
  ultimately show ?thesis using i
    by (simp add: settled_until_def settleCall_def)
qed

lemma key_of_same_signature: "same_signature c1 c2 \<Longrightarrow> key_of c2 = key_of c1"
  by (cases c1; cases c2) simp_all

lemma now_settleCall [simp]: "now (shared (settleCall i ss)) = now (shared ss)"
  using afterFetch_effect [of "inflight ss ! i" "shared ss"] by (auto simp: settleCall_def)

text \<open>
  Without overlap the cache keeps what it stored for its time to live. Take a history in
  which no call began while a call with the same cache key (in particular, with the same
  signature) was in flight, and let the \<^verbatim>\<open>fetch\<close> of a call in flight settle, which creates
  the cache entry of its signature. Whatever calls and waiting follow, as long as fewer
  than 300000 ms have passed since the entry was created, a call with the same kind, mood
  and cravings returns the stored result at once and leaves the session as it is: no
  request is issued, nothing is scored, and the entry is the same.
\<close>

lemma hit_without_overlap:
  assumes "no_overlap idle es0"
    and "i < length (inflight (run idle es0))"
    and "now (shared (run (settleCall i (run idle es0)) es))
           < now (shared (run idle es0)) + 300000"
    and "same_signature (inflight (run idle es0) ! i) c2"
  shows "beginCall c2 (run (settleCall i (run idle es0)) es)
           = (Some (fst (afterFetch (inflight (run idle es0) ! i) (shared (run idle es0)))),
              run (settleCall i (run idle es0)) es)"
proof -
  let ?ss = "run idle es0"
  let ?c1 = "inflight ?ss ! i"
  let ?v = "fst (afterFetch ?c1 (shared ?ss))"
  let ?T = "now (shared ?ss) + 300000"
  have "calm ?ss"
    using calm_idle assms(1) by (rule calm_run)
  then have "settled_until (key_of ?c1) ?v ?T (settleCall i ?ss)"
    using assms(2) by (rule settled_until_created) simp
  then have "settled_until (key_of ?c1) ?v ?T (run (settleCall i ?ss) es)"
    using assms(3) by (rule settled_until_run)
  then have "cache (shared (run (settleCall i ?ss) es)) (key_of c2) = Some ?v"
    using key_of_same_signature [OF assms(4)] by (simp add: settled_until_def holds_until_def)
  then show ?thesis by (rule beginCall_hit)
qed

text \<open>
  Claim C7 fails when two calls of one signature overlap: the resolvers suspend at
  \<^verbatim>\<open>await fetch(...)\<close> between \<^verbatim>\<open>cache.has\<close> and \<^verbatim>\<open>cache.set\<close>, and the timer of an entry
  deletes by key, whatever entry the key holds by then. Both calls miss; the first stores
  its answer at 100 ms, the second replaces it with another at 200 ms; at 300100 ms the
  timer of the first call has deleted the entry of the second, 299900 ms after it was
  created, and a call with the same signature misses again.
\<close>

theorem overlapping_calls_evict_early:
  "cache (shared (run idle
       [Begin (RestaurantCall
                \<lparr>latency = 100,
                 result = Settled (Response 200 (Json False (Array
                   [Some \<lparr>entity = Some \<lparr>placeId = ''p1'', r_name = ''Pronto'',
                                         r_address = ''789 Atlantic Ave'', r_tags = Some [''pizza''],
                                         cuisine = ''Pizza''\<rparr>,
                          aiReasoning = Some ''best''\<rparr>])))\<rparr>
                ''happy'' ''pizza'' None
                [\<lparr>placeId = ''p1'', r_name = ''Pronto'',
                  r_address = ''789 Atlantic Ave'', r_tags = Some [''pizza''],
                  cuisine = ''Pizza''\<rparr>]),
        Begin (RestaurantCall
                \<lparr>latency = 200,
                 result = Settled (Response 200 (Json False (Array
                   [Some \<lparr>entity = Some \<lparr>placeId = ''p1'', r_name = ''Pronto'',
                                         r_address = ''789 Atlantic Ave'', r_tags = Some [''pizza''],
                                         cuisine = ''Pizza''\<rparr>,
                          aiReasoning = Some ''again''\<rparr>])))\<rparr>
                ''happy'' ''pizza'' None
                [\<lparr>placeId = ''p1'', r_name = ''Pronto'',
                  r_address = ''789 Atlantic Ave'', r_tags = Some [''pizza''],
                  cuisine = ''Pizza''\<rparr>]),
        Wait 100, Settle 0, Wait 100, Settle 0]))
     (restaurantsKey ''happy'' ''pizza'')
     = Some (Suggestions [\<lparr>sugg_placeId = Some ''p1'', reasoning = ''again''\<rparr>])
   \<and> now (shared (run idle
       [Begin (RestaurantCall
                \<lparr>latency = 100,
                 result = Settled (Response 200 (Json False (Array
                   [Some \<lparr>entity = Some \<lparr>placeId = ''p1'', r_name = ''Pronto'',
                                         r_address = ''789 Atlantic Ave'', r_tags = Some [''pizza''],
                                         cuisine = ''Pizza''\<rparr>,
                          aiReasoning = Some ''best''\<rparr>])))\<rparr>
                ''happy'' ''pizza'' None
                [\<lparr>placeId = ''p1'', r_name = ''Pronto'',
                  r_address = ''789 Atlantic Ave'', r_tags = Some [''pizza''],
                  cuisine = ''Pizza''\<rparr>]),
        Begin (RestaurantCall
                \<lparr>latency = 200,
                 result = Settled (Response 200 (Json False (Array
                   [Some \<lparr>entity = Some \<lparr>placeId = ''p1'', r_name = ''Pronto'',
                                         r_address = ''789 Atlantic Ave'', r_tags = Some [''pizza''],
                                         cuisine = ''Pizza''\<rparr>,
                          aiReasoning = Some ''again''\<rparr>])))\<rparr>
                ''happy'' ''pizza'' None
                [\<lparr>placeId = ''p1'', r_name = ''Pronto'',
                  r_address = ''789 Atlantic Ave'', r_tags = Some [''pizza''],
                  cuisine = ''Pizza''\<rparr>]),
        Wait 100, Settle 0, Wait 100, Settle 0])) = 200
   \<and> now (shared (run idle
       [Begin (RestaurantCall
                \<lparr>latency = 100,
                 result = Settled (Response 200 (Json False (Array
                   [Some \<lparr>entity = Some \<lparr>placeId = ''p1'', r_name = ''Pronto'',
                                         r_address = ''789 Atlantic Ave'', r_tags = Some [''pizza''],
                                         cuisine = ''Pizza''\<rparr>,
                          aiReasoning = Some ''best''\<rparr>])))\<rparr>
                ''happy'' ''pizza'' None
                [\<lparr>placeId = ''p1'', r_name = ''Pronto'',
                  r_address = ''789 Atlantic Ave'', r_tags = Some [''pizza''],
                  cuisine = ''Pizza''\<rparr>]),
        Begin (RestaurantCall
                \<lparr>latency = 200,
                 result = Settled (Response 200 (Json False (Array
                   [Some \<lparr>entity = Some \<lparr>placeId = ''p1'', r_name = ''Pronto'',
                                         r_address = ''789 Atlantic Ave'', r_tags = Some [''pizza''],
                                         cuisine = ''Pizza''\<rparr>,
                          aiReasoning = Some ''again''\<rparr>])))\<rparr>
                ''happy'' ''pizza'' None
                [\<lparr>placeId = ''p1'', r_name = ''Pronto'',
                  r_address = ''789 Atlantic Ave'', r_tags = Some [''pizza''],
                  cuisine = ''Pizza''\<rparr>]),
        Wait 100, Settle 0, Wait 100, Settle 0, Wait 299900])) = 300100
   \<and> fst (beginCall
       (RestaurantCall
         \<lparr>latency = 100,
          result = Settled (Response 200 (Json False (Array
            [Some \<lparr>entity = Some \<lparr>placeId = ''p1'', r_name = ''Pronto'',
                                  r_address = ''789 Atlantic Ave'', r_tags = Some [''pizza''],
                                  cuisine = ''Pizza''\<rparr>,
                   aiReasoning = Some ''best''\<rparr>])))\<rparr>
         ''happy'' ''pizza'' None
         [\<lparr>placeId = ''p1'', r_name = ''Pronto'',
           r_address = ''789 Atlantic Ave'', r_tags = Some [''pizza''],
           cuisine = ''Pizza''\<rparr>])
       (run idle
       [Begin (RestaurantCall
                \<lparr>latency = 100,
                 result = Settled (Response 200 (Json False (Array
                   [Some \<lparr>entity = Some \<lparr>placeId = ''p1'', r_name = ''Pronto'',
                                         r_address = ''789 Atlantic Ave'', r_tags = Some [''pizza''],
                                         cuisine = ''Pizza''\<rparr>,
                          aiReasoning = Some ''best''\<rparr>])))\<rparr>
                ''happy'' ''pizza'' None
                [\<lparr>placeId = ''p1'', r_name = ''Pronto'',
                  r_address = ''789 Atlantic Ave'', r_tags = Some [''pizza''],
                  cuisine = ''Pizza''\<rparr>]),
        Begin (RestaurantCall
                \<lparr>latency = 200,
                 result = Settled (Response 200 (Json False (Array
                   [Some \<lparr>entity = Some \<lparr>placeId = ''p1'', r_name = ''Pronto'',
                                         r_address = ''789 Atlantic Ave'', r_tags = Some [''pizza''],
                                         cuisine = ''Pizza''\<rparr>,
                          aiReasoning = Some ''again''\<rparr>])))\<rparr>
                ''happy'' ''pizza'' None
                [\<lparr>placeId = ''p1'', r_name = ''Pronto'',
                  r_address = ''789 Atlantic Ave'', r_tags = Some [''pizza''],
                  cuisine = ''Pizza''\<rparr>]),
        Wait 100, Settle 0, Wait 100, Settle 0, Wait 299900])) = None"
  by (simp add: run_def beginCall_def settleCall_def restaurantsSettled_def
      try_restaurants_def try_fetch_def ok_def toAiSuggestion_def elapse_def cache_set_def
      setTimeout_delete_def idle_def init_def restaurantsKey_def Let_def)

subsection \<open>Expiry\<close>

text \<open>
  The entry that a failed call stores has no timer: in a history without overlap up to its
  creation, no later event removes or replaces it.
\<close>

lemma fallback_entry_persists:
  assumes "no_overlap idle es0"
    and "i < length (inflight (run idle es0))"
    and "call_failed (inflight (run idle es0) ! i)"
  shows "cache (shared (run (settleCall i (run idle es0)) es))
           (key_of (inflight (run idle es0) ! i))
           = Some (fst (afterFetch (inflight (run idle es0) ! i) (shared (run idle es0))))"
proof -
  let ?ss = "run idle es0"
  let ?c = "inflight ?ss ! i"
  let ?v = "fst (afterFetch ?c (shared ?ss))"
  let ?T = "Suc (now (shared (run (settleCall i ?ss) es)))"
  have "calm ?ss"
    using calm_idle assms(1) by (rule calm_run)
  then have "settled_until (key_of ?c) ?v ?T (settleCall i ?ss)"
    using assms(2) by (rule settled_until_created) (simp add: assms(3))
  then have "settled_until (key_of ?c) ?v ?T (run (settleCall i ?ss) es)"
    by (rule settled_until_run) simp
  then show ?thesis by (simp add: settled_until_def holds_until_def)
qed

text \<open>The entry of a call that the backend answered is gone 300000 ms after it was stored.\<close>

lemma ai_entry_expires:
  assumes "i < length (inflight ss)" and "\<not> call_failed (inflight ss ! i)"
    and "300000 \<le> d"
  shows "cache (shared (step (settleCall i ss) (Wait d))) (key_of (inflight ss ! i)) = None"
proof -
  let ?c = "inflight ss ! i"
  let ?s = "shared ss"
  let ?s' = "snd (afterFetch ?c ?s)"
  from afterFetch_effect [of ?c ?s] assms(2) obtain tm where
    n: "now ?s' = now ?s"
    and tt: "timers ?s' = timers ?s @ tm"
    and tm: "tm = [(now ?s + 300000, key_of ?c)]"
    by blast
  from tt tm have "(now ?s + 300000, key_of ?c) \<in> set (timers ?s')" by simp
  with n assms(3) have "\<exists>e \<in> set (timers ?s'). fst e \<le> now ?s' + d \<and> snd e = key_of ?c"
    by force
  then have "cache (elapse d ?s') (key_of ?c) = None"
    by (simp add: cache_elapse)
  with assms(1) show ?thesis by (simp add: settleCall_def)
qed

text \<open>
  Claim C8 fails on the fallback path. After a resolution from the empty cache whose
  remote call is rejected, the entry is still cached 300000 ms later (by
  \<open>fallback_entry_persists\<close> nothing that follows removes it), whereas the entry of a
  resolution answered by the backend is gone by then.
\<close>

theorem fallback_entry_not_removed:
  "cache (elapse 300000 (snd (getAiRankedRestaurants
       \<lparr>latency = 250, result = Rejected\<rparr> ''happy'' ''pizza'' None
       [\<lparr>placeId = ''p1'', r_name = ''Pronto'', r_address = ''789 Atlantic Ave'',
         r_tags = Some [''pizza''], cuisine = ''Pizza''\<rparr>] init)))
     (restaurantsKey ''happy'' ''pizza'')
     = Some (Suggestions (restaurantFallback ''happy'' ''pizza''
         [\<lparr>placeId = ''p1'', r_name = ''Pronto'', r_address = ''789 Atlantic Ave'',
           r_tags = Some [''pizza''], cuisine = ''Pizza''\<rparr>]))
   \<and> cache (elapse 300000 (snd (getAiRankedRestaurants
       \<lparr>latency = 250, result = Settled (Response 200 (Json False (Array
           [Some \<lparr>entity = Some \<lparr>placeId = ''p1'', r_name = ''Pronto'',
                      r_address = ''789 Atlantic Ave'', r_tags = Some [''pizza''],
                      cuisine = ''Pizza''\<rparr>,
             aiReasoning = Some ''best''\<rparr>])))\<rparr> ''happy'' ''pizza'' None
       [\<lparr>placeId = ''p1'', r_name = ''Pronto'', r_address = ''789 Atlantic Ave'',
         r_tags = Some [''pizza''], cuisine = ''Pizza''\<rparr>] init)))
     (restaurantsKey ''happy'' ''pizza'')
     = None"
  by (simp add: getAiRankedRestaurants_def restaurantsSettled_def try_restaurants_def
      restaurantsKey_def init_def try_fetch_def ok_def Let_def elapse_def cache_set_def
      setTimeout_delete_def)

subsection \<open>Time-outs\<close>

lemma hotspots_ignore_latency:
  "fst (getAiFilteredHotspots (remote\<lparr>latency := d\<rparr>) mood cravings p xs s)
     = fst (getAiFilteredHotspots remote mood cravings p xs s)"
  by (simp add: getAiFilteredHotspots_def hotspotsSettled_def Let_def
      split: option.splits sum.splits)

lemma restaurants_ignore_latency:
  "fst (getAiRankedRestaurants (remote\<lparr>latency := d\<rparr>) mood cravings p xs s)
     = fst (getAiRankedRestaurants remote mood cravings p xs s)"
  by (simp add: getAiRankedRestaurants_def restaurantsSettled_def Let_def
      split: option.splits sum.splits)

lemma apiRequest_timeout:
  "10000 \<le> latency remote
     \<Longrightarrow> apiRequest remote = Inl (APIError ''Request timed out. Please try again.'' 408)"
  by (simp add: apiRequest_def)

text \<open>
  Claim C10 fails on the resolvers: they call \<^verbatim>\<open>fetch\<close> without an abort signal. When the
  backend answers after 20 seconds, the hotspot resolver waits the 20 seconds and returns
  the backend's answer, not the fallback's reordering of the two candidates; the service
  layer's \<^verbatim>\<open>apiRequest\<close> would have timed out on the same exchange.
\<close>

theorem no_timeout_in_resolver:
  "fst (getAiFilteredHotspots
      \<lparr>latency = 20000, result = Settled (Response 200 (Json False (Array
          [\<lparr>h_id = 6, h_name = ''DUMBO'', h_address = ''Brooklyn'',
            review_count = 9100, h_tags = Some [''pizza'', ''views'']\<rparr>])))\<rparr>
      ''happy'' ''pizza'' None
      [\<lparr>h_id = 3, h_name = ''Greenpoint'', h_address = ''Brooklyn'',
         review_count = 6100, h_tags = Some [''polish'', ''donuts'']\<rparr>,
       \<lparr>h_id = 6, h_name = ''DUMBO'', h_address = ''Brooklyn'',
         review_count = 9100, h_tags = Some [''pizza'', ''views'']\<rparr>] init)
     = Hotspots [\<lparr>h_id = 6, h_name = ''DUMBO'', h_address = ''Brooklyn'',
                   review_count = 9100, h_tags = Some [''pizza'', ''views'']\<rparr>]
   \<and> now (snd (getAiFilteredHotspots
      \<lparr>latency = 20000, result = Settled (Response 200 (Json False (Array
          [\<lparr>h_id = 6, h_name = ''DUMBO'', h_address = ''Brooklyn'',
            review_count = 9100, h_tags = Some [''pizza'', ''views'']\<rparr>])))\<rparr>
      ''happy'' ''pizza'' None
      [\<lparr>h_id = 3, h_name = ''Greenpoint'', h_address = ''Brooklyn'',
         review_count = 6100, h_tags = Some [''polish'', ''donuts'']\<rparr>,
       \<lparr>h_id = 6, h_name = ''DUMBO'', h_address = ''Brooklyn'',
         review_count = 9100, h_tags = Some [''pizza'', ''views'']\<rparr>] init)) = 20000
   \<and> length (hotspotFallback ''happy'' ''pizza''
      [\<lparr>h_id = 3, h_name = ''Greenpoint'', h_address = ''Brooklyn'',
         review_count = 6100, h_tags = Some [''polish'', ''donuts'']\<rparr>,
       \<lparr>h_id = 6, h_name = ''DUMBO'', h_address = ''Brooklyn'',
         review_count = 9100, h_tags = Some [''pizza'', ''views'']\<rparr>]) = 2
   \<and> apiRequest
      \<lparr>latency = 20000, result = Settled (Response 200 (Json False (Array
          [\<lparr>h_id = 6, h_name = ''DUMBO'', h_address = ''Brooklyn'',
            review_count = 9100, h_tags = Some [''pizza'', ''views'']\<rparr>])))\<rparr>
     = Inl (APIError ''Request timed out. Please try again.'' 408)"
proof (intro conjI)
  show "length (hotspotFallback ''happy'' ''pizza''
      [\<lparr>h_id = 3, h_name = ''Greenpoint'', h_address = ''Brooklyn'',
         review_count = 6100, h_tags = Some [''polish'', ''donuts'']\<rparr>,
       \<lparr>h_id = 6, h_name = ''DUMBO'', h_address = ''Brooklyn'',
         review_count = 9100, h_tags = Some [''pizza'', ''views'']\<rparr>]) = 2"
    using mset_eq_length [OF mset_hotspotFallback] by simp
qed (simp_all add: getAiFilteredHotspots_def hotspotsSettled_def hotspots_or_empty_def
      init_def try_fetch_def ok_def Let_def
      elapse_def cache_set_def setTimeout_delete_def apiRequest_def)

end
